theory Spec2Isabelle
  imports Main "HOL-Library.Word"
begin

unbundle bit_operations_syntax

section \<open>JavaScript values used by the vault core\<close>

text \<open>
  A JavaScript string is a sequence of 16-bit code units; a \<open>Uint8Array\<close> is a
  sequence of bytes. ASCII literals of the source are written with \<open>js\<close>.
\<close>

type_synonym byte = "8 word"
type_synonym jsstr = "16 word list"

definition js :: "string \<Rightarrow> jsstr" where
  "js s = map of_char s"

text \<open>The exceptions the modelled code can see.\<close>

datatype js_error =
    InvalidCharacterError  \<comment> \<open>DOMException of \<open>atob\<close>/\<open>btoa\<close>\<close>
  | OperationError         \<comment> \<open>DOMException of \<open>crypto.subtle.decrypt\<close>\<close>
  | LegacyDecryptError     \<comment> \<open>the \<open>Error\<close> thrown by \<open>CryptoUtils.decrypt\<close>, background.js line 479\<close>
  | NoKeyError             \<comment> \<open>the \<open>Error\<close> thrown at background.js lines 517 and 540\<close>
  | NotEncryptedError      \<comment> \<open>the \<open>Error\<close> thrown at background.js line 535\<close>
  | TypeError              \<comment> \<open>reading a property of \<open>undefined\<close>\<close>
  | LegacyEncryptError     \<comment> \<open>the \<open>Error\<close> thrown by \<open>CryptoUtils.encrypt\<close>, background.js line 444\<close>

definition bindE :: "js_error + 'a \<Rightarrow> ('a \<Rightarrow> js_error + 'b) \<Rightarrow> js_error + 'b" where
  "bindE r f = (case r of Inl e \<Rightarrow> Inl e | Inr v \<Rightarrow> f v)"

section \<open>Base64: \<open>btoa\<close> and \<open>atob\<close>\<close>

definition b64_code :: "nat \<Rightarrow> nat" where
  "b64_code n =
     (if n < 26 then n + 65
      else if n < 52 then n + 71
      else if n < 62 then n - 4
      else if n = 62 then 43 else 47)"

definition b64_digit :: "nat \<Rightarrow> 16 word" where
  "b64_digit n = of_nat (b64_code n)"

definition b64_value :: "16 word \<Rightarrow> nat option" where
  "b64_value c =
     (let n = unat c in
      if 65 \<le> n \<and> n \<le> 90 then Some (n - 65)
      else if 97 \<le> n \<and> n \<le> 122 then Some (n - 71)
      else if 48 \<le> n \<and> n \<le> 57 then Some (n + 4)
      else if n = 43 then Some 62
      else if n = 47 then Some 63
      else None)"

text \<open>Three bytes become four digits; a final group of one or two bytes is padded with \<open>=\<close>.\<close>

fun b64_groups :: "nat list \<Rightarrow> jsstr" where
  "b64_groups (a # b # c # r) =
     [b64_digit (a div 4), b64_digit ((a mod 4) * 16 + b div 16),
      b64_digit ((b mod 16) * 4 + c div 64), b64_digit (c mod 64)] @ b64_groups r"
| "b64_groups [a, b] =
     [b64_digit (a div 4), b64_digit ((a mod 4) * 16 + b div 16),
      b64_digit ((b mod 16) * 4), 61]"
| "b64_groups [a] = [b64_digit (a div 4), b64_digit ((a mod 4) * 16), 61, 61]"
| "b64_groups [] = []"

text \<open>The digits of an encoding as numbers, without the padding.\<close>

fun b64_body :: "nat list \<Rightarrow> nat list" where
  "b64_body (a # b # c # r) =
     [a div 4, (a mod 4) * 16 + b div 16, (b mod 16) * 4 + c div 64, c mod 64] @ b64_body r"
| "b64_body [a, b] = [a div 4, (a mod 4) * 16 + b div 16, (b mod 16) * 4]"
| "b64_body [a] = [a div 4, (a mod 4) * 16]"
| "b64_body [] = []"

fun b64_padding :: "nat list \<Rightarrow> jsstr" where
  "b64_padding (a # b # c # r) = b64_padding r"
| "b64_padding [a, b] = [61]"
| "b64_padding [a] = [61, 61]"
| "b64_padding [] = []"

text \<open>\<open>btoa\<close> throws on a code unit above \<open>0xFF\<close>.\<close>

definition btoa :: "jsstr \<Rightarrow> js_error + jsstr" where
  "btoa s =
     (if list_all (\<lambda>c. c \<le> 0xFF) s then Inr (b64_groups (map unat s))
      else Inl InvalidCharacterError)"

text \<open>
  \<open>atob\<close> is the forgiving-base64 decode of the HTML standard: ASCII whitespace is
  removed, one or two trailing \<open>=\<close> are removed when the length is a multiple of 4, a
  length of 1 modulo 4 or a code unit outside the alphabet fails, and the left-over bits
  of a final group of two or three digits are discarded.
\<close>

definition ascii_whitespace :: "16 word \<Rightarrow> bool" where
  "ascii_whitespace c = (let n = unat c in n = 9 \<or> n = 10 \<or> n = 12 \<or> n = 13 \<or> n = 32)"

definition strip_padding :: "jsstr \<Rightarrow> jsstr" where
  "strip_padding d =
     (case rev d of
        c1 # c2 # r \<Rightarrow> if c1 = 61 \<and> c2 = 61 then rev r else if c1 = 61 then rev (c2 # r) else d
      | [c1] \<Rightarrow> if c1 = 61 then [] else d
      | [] \<Rightarrow> d)"

fun b64_bytes :: "nat list \<Rightarrow> nat list" where
  "b64_bytes (a # b # c # d # r) =
     [a * 4 + b div 16, (b mod 16) * 16 + c div 4, (c mod 4) * 64 + d] @ b64_bytes r"
| "b64_bytes [a, b, c] = [a * 4 + b div 16, (b mod 16) * 16 + c div 4]"
| "b64_bytes [a, b] = [a * 4 + b div 16]"
| "b64_bytes [a] = []"
| "b64_bytes [] = []"

definition atob :: "jsstr \<Rightarrow> js_error + jsstr" where
  "atob data =
     (let d1 = filter (\<lambda>c. \<not> ascii_whitespace c) data;
          d2 = (if length d1 mod 4 = 0 then strip_padding d1 else d1)
      in if length d2 mod 4 = 1 then Inl InvalidCharacterError
         else if \<not> list_all (\<lambda>c. b64_value c \<noteq> None) d2 then Inl InvalidCharacterError
         else Inr (map of_nat (b64_bytes (map (\<lambda>c. the (b64_value c)) d2))))"

text \<open>\<open>arrayBufferToBase64\<close> and \<open>base64ToArrayBuffer\<close>, the same in both classes
  (part_002 lines 80-101, background.js lines 486-505).\<close>

definition arrayBufferToBase64 :: "byte list \<Rightarrow> js_error + jsstr" where
  "arrayBufferToBase64 buffer = btoa (map ucast buffer)"

definition base64ToArrayBuffer :: "jsstr \<Rightarrow> js_error + byte list" where
  "base64ToArrayBuffer base64 = bindE (atob base64) (\<lambda>binary. Inr (map ucast binary))"

section \<open>UTF-8: \<open>TextEncoder\<close> and \<open>TextDecoder\<close>\<close>

text \<open>
  \<open>TextEncoder.encode\<close> first converts its argument to a sequence of Unicode scalar
  values: a high surrogate followed by a low surrogate is one supplementary code point,
  any other surrogate is replaced by \<open>U+FFFD\<close>. Each scalar value is then written in
  one to four bytes.
\<close>

definition high_surrogate :: "16 word \<Rightarrow> bool" where
  "high_surrogate c = (0xD800 \<le> unat c \<and> unat c \<le> 0xDBFF)"

definition low_surrogate :: "16 word \<Rightarrow> bool" where
  "low_surrogate c = (0xDC00 \<le> unat c \<and> unat c \<le> 0xDFFF)"

definition lone_unit :: "16 word \<Rightarrow> nat" where
  "lone_unit c = (if high_surrogate c \<or> low_surrogate c then 0xFFFD else unat c)"

fun scalar_values :: "jsstr \<Rightarrow> nat list" where
  "scalar_values [] = []"
| "scalar_values [c] = [lone_unit c]"
| "scalar_values (c # d # r) =
     (if high_surrogate c \<and> low_surrogate d
      then (0x10000 + (unat c - 0xD800) * 0x400 + (unat d - 0xDC00)) # scalar_values r
      else lone_unit c # scalar_values (d # r))"

definition utf8_units :: "nat \<Rightarrow> nat list" where
  "utf8_units c =
     (if c < 0x80 then [c]
      else if c < 0x800 then [0xC0 + c div 64, 0x80 + c mod 64]
      else if c < 0x10000 then [0xE0 + c div 4096, 0x80 + c div 64 mod 64, 0x80 + c mod 64]
      else [0xF0 + c div 262144, 0x80 + c div 4096 mod 64, 0x80 + c div 64 mod 64,
            0x80 + c mod 64])"

definition TextEncoder_encode :: "jsstr \<Rightarrow> byte list" where
  "TextEncoder_encode s = map of_nat (concat (map utf8_units (scalar_values s)))"

text \<open>
  The UTF-8 decoder of the Encoding standard, with its state written as arguments: the
  code point being assembled, the continuation bytes seen and needed, and the bounds of
  the next continuation byte. An error emits \<open>U+FFFD\<close>; a byte that cannot continue a
  sequence is read again as the start of the next one. On naturals \<open>b mod 32\<close> is
  \<open>b & 0x1F\<close> and \<open>cp * 64 + b mod 64\<close> is \<open>(cp << 6) | (b & 0x3F)\<close>.
\<close>

function utf8_decode :: "nat \<Rightarrow> nat \<Rightarrow> nat \<Rightarrow> nat \<Rightarrow> nat \<Rightarrow> nat list \<Rightarrow> nat list" where
  "utf8_decode cp seen needed lo hi [] = (if needed \<noteq> 0 then [0xFFFD] else [])"
| "utf8_decode cp seen needed lo hi (b # bs) =
     (if needed = 0 then
        (if b \<le> 0x7F then b # utf8_decode 0 0 0 0x80 0xBF bs
         else if 0xC2 \<le> b \<and> b \<le> 0xDF then utf8_decode (b mod 32) 0 1 lo hi bs
         else if 0xE0 \<le> b \<and> b \<le> 0xEF
           then utf8_decode (b mod 16) 0 2
                  (if b = 0xE0 then 0xA0 else lo) (if b = 0xED then 0x9F else hi) bs
         else if 0xF0 \<le> b \<and> b \<le> 0xF4
           then utf8_decode (b mod 8) 0 3
                  (if b = 0xF0 then 0x90 else lo) (if b = 0xF4 then 0x8F else hi) bs
         else 0xFFFD # utf8_decode 0 0 0 0x80 0xBF bs)
      else if b < lo \<or> hi < b then 0xFFFD # utf8_decode 0 0 0 0x80 0xBF (b # bs)
      else if seen + 1 \<noteq> needed
        then utf8_decode (cp * 64 + b mod 64) (seen + 1) needed 0x80 0xBF bs
      else (cp * 64 + b mod 64) # utf8_decode 0 0 0 0x80 0xBF bs)"
  by pat_completeness auto
termination
  by (relation "measure (\<lambda>(cp, seen, needed, lo, hi, bs).
        2 * length bs + (if needed = 0 then 0 else 1))") auto

text \<open>
  \<open>new TextDecoder().decode\<close>: not fatal, and \<open>ignoreBOM\<close> is false, so a leading
  \<open>U+FEFF\<close> is dropped; the scalar values are returned as UTF-16 code units.
\<close>

definition strip_bom :: "nat list \<Rightarrow> nat list" where
  "strip_bom cps = (case cps of [] \<Rightarrow> [] | c # r \<Rightarrow> if c = 0xFEFF then r else c # r)"

definition utf16_units :: "nat \<Rightarrow> jsstr" where
  "utf16_units c =
     (if c < 0x10000 then [of_nat c]
      else [of_nat (0xD800 + (c - 0x10000) div 0x400), of_nat (0xDC00 + (c - 0x10000) mod 0x400)])"

definition TextDecoder_decode :: "byte list \<Rightarrow> jsstr" where
  "TextDecoder_decode bytes =
     concat (map utf16_units (strip_bom (utf8_decode 0 0 0 0x80 0xBF (map unat bytes))))"

text \<open>A Unicode scalar value; a string without unpaired surrogates.\<close>

definition scalar :: "nat \<Rightarrow> bool" where
  "scalar c = (c < 0x110000 \<and> \<not> (0xD800 \<le> c \<and> c \<le> 0xDFFF))"

fun well_formed :: "jsstr \<Rightarrow> bool" where
  "well_formed [] = True"
| "well_formed [c] = (\<not> high_surrogate c \<and> \<not> low_surrogate c)"
| "well_formed (c # d # r) =
     (if high_surrogate c then low_surrogate d \<and> well_formed r
      else \<not> low_surrogate c \<and> well_formed (d # r))"

section \<open>The platform\<close>

text \<open>
  The browser functions the code calls and the repository does not contain: PBKDF2 with
  SHA-256 (\<open>crypto.subtle.deriveKey\<close>), AES-GCM with a 128-bit tag
  (\<open>crypto.subtle.encrypt\<close> and \<open>decrypt\<close>, \<open>None\<close> for the \<open>OperationError\<close> of a
  failed authentication), the random source of \<open>crypto.getRandomValues\<close>, the local
  calendar behind \<open>Date\<close>, whether \<open>chrome.storage.session\<close> exists, and whether the
  legacy global \<open>window.cryptoUtils\<close> is loaded. A \<open>CryptoKey\<close> is its raw key
  material, which is what \<open>exportKey\<close> and \<open>importKey\<close> of format \<open>raw\<close> exchange.
\<close>

record platform =
  pbkdf2_sha256 :: "byte list \<Rightarrow> byte list \<Rightarrow> nat \<Rightarrow> byte list"
  aes_gcm_encrypt :: "byte list \<Rightarrow> byte list \<Rightarrow> byte list \<Rightarrow> byte list"
  aes_gcm_decrypt :: "byte list \<Rightarrow> byte list \<Rightarrow> byte list \<Rightarrow> byte list option"
  random_source :: "nat \<Rightarrow> byte"
  toDateString :: "int \<Rightarrow> jsstr"
  endOfDay :: "int \<Rightarrow> int"
  session_available :: bool
  window_cryptoUtils :: bool

definition getRandomValues :: "platform \<Rightarrow> nat \<Rightarrow> nat \<Rightarrow> byte list" where
  "getRandomValues P cur n = map (random_source P) [cur ..< cur + n]"

text \<open>What the theorems below assume of AES-GCM: decryption inverts encryption under the
  same key and nonce, and the ciphertext is the plaintext's length plus the 16-byte tag.\<close>

definition gcm_correct :: "platform \<Rightarrow> bool" where
  "gcm_correct P = (\<forall>k iv d. aes_gcm_decrypt P k iv (aes_gcm_encrypt P k iv d) = Some d)"

definition gcm_tag_length :: "platform \<Rightarrow> bool" where
  "gcm_tag_length P = (\<forall>k iv d. length (aes_gcm_encrypt P k iv d) = length d + 16)"

section \<open>\<open>CryptoUtils\<close>, the legacy codec (background.js lines 349-591)\<close>

text \<open>
  The second argument of \<open>encrypt\<close> and \<open>decrypt\<close> is handed to
  \<open>TextEncoder.encode\<close>, which converts it to a string first: a string is itself, a
  \<open>CryptoKey\<close> object is \<open>[object CryptoKey]\<close> whatever its key material.
\<close>

datatype key_arg = KeyString jsstr | KeyObject "byte list" | KeyNull

fun ToString :: "key_arg \<Rightarrow> jsstr" where
  "ToString (KeyString s) = s"
| "ToString (KeyObject raw) = js ''[object CryptoKey]''"
| "ToString KeyNull = js ''null''"

fun truthy :: "key_arg \<Rightarrow> bool" where
  "truthy (KeyString s) = (s \<noteq> [])"
| "truthy (KeyObject raw) = True"
| "truthy KeyNull = False"

text \<open>
  \<open>deriveKey\<close> with its fixed 100000 iterations, and \<open>encrypt\<close> and \<open>decrypt\<close>
  with the salt and nonce drawn by \<open>generateSalt\<close> and \<open>generateIV\<close> as arguments.
  Each of the two catches every error and throws its own.
\<close>

definition CryptoUtils_deriveKey :: "platform \<Rightarrow> key_arg \<Rightarrow> byte list \<Rightarrow> byte list" where
  "CryptoUtils_deriveKey P password salt =
     pbkdf2_sha256 P (TextEncoder_encode (ToString password)) salt 100000"

definition CryptoUtils_encrypt ::
  "platform \<Rightarrow> byte list \<Rightarrow> byte list \<Rightarrow> jsstr \<Rightarrow> key_arg \<Rightarrow> js_error + jsstr" where
  "CryptoUtils_encrypt P salt iv plaintext password =
     (let data = TextEncoder_encode plaintext;
          key = CryptoUtils_deriveKey P password salt;
          encrypted = aes_gcm_encrypt P key iv data
      in case arrayBufferToBase64 (salt @ iv @ encrypted) of
           Inl e \<Rightarrow> Inl LegacyEncryptError
         | Inr s \<Rightarrow> Inr s)"

definition CryptoUtils_decrypt :: "platform \<Rightarrow> jsstr \<Rightarrow> key_arg \<Rightarrow> js_error + jsstr" where
  "CryptoUtils_decrypt P ciphertext password =
     (case base64ToArrayBuffer ciphertext of
        Inl e \<Rightarrow> Inl LegacyDecryptError
      | Inr data \<Rightarrow>
          (let salt = take 16 data;
               iv = take 12 (drop 16 data);
               encrypted = drop 28 data;
               key = CryptoUtils_deriveKey P password salt
           in case aes_gcm_decrypt P key iv encrypted of
                None \<Rightarrow> Inl LegacyDecryptError
              | Some decrypted \<Rightarrow> Inr (TextDecoder_decode decrypted)))"

text \<open>The regular expression \<open>/^[A-Za-z0-9+/]+={0,2}$/\<close>: a non-empty run of digits,
  then at most two \<open>=\<close>, then the end.\<close>

definition base64Regex :: "jsstr \<Rightarrow> bool" where
  "base64Regex str =
     (let body = takeWhile (\<lambda>c. b64_value c \<noteq> None) str;
          pad = dropWhile (\<lambda>c. b64_value c \<noteq> None) str
      in body \<noteq> [] \<and> length pad \<le> 2 \<and> list_all (\<lambda>c. c = 61) pad)"

definition isBase64 :: "jsstr \<Rightarrow> bool" where
  "isBase64 str =
     (if str = [] then False
      else if length str mod 4 \<noteq> 0 then False
      else if \<not> base64Regex str then False
      else (case atob str of
              Inl e \<Rightarrow> False
            | Inr decoded \<Rightarrow> if length decoded < 28 then False else True))"

definition encryptPassword ::
  "platform \<Rightarrow> byte list \<Rightarrow> byte list \<Rightarrow> jsstr \<Rightarrow> key_arg \<Rightarrow> js_error + jsstr" where
  "encryptPassword P salt iv password key =
     (if \<not> truthy key then Inl NoKeyError
      else CryptoUtils_encrypt P salt iv password key)"

definition decryptPassword :: "platform \<Rightarrow> jsstr \<Rightarrow> key_arg \<Rightarrow> js_error + jsstr" where
  "decryptPassword P encryptedPassword key =
     (if \<not> isBase64 encryptedPassword then Inl NotEncryptedError
      else if \<not> truthy key then Inl NoKeyError
      else CryptoUtils_decrypt P encryptedPassword key)"

section \<open>The stores and the service worker's memory\<close>

record securityConfig =
  version :: jsstr
  salt :: jsstr
  iterations :: nat
  verificationData :: jsstr
  createdAt :: int

text \<open>An account's \<open>password\<close> may be missing (\<open>undefined\<close>).\<close>

record account =
  account_id :: jsstr
  envId :: jsstr
  username :: jsstr
  password :: "jsstr option"

record environment =
  environment_id :: jsstr
  loginUrl :: "jsstr option"

record oldData =
  old_environments :: "environment list option"
  old_accounts :: "account list option"
  old_masterPassword :: "jsstr option"

record backup =
  timestamp :: int
  backup_version :: jsstr
  data :: oldData

text \<open>\<open>chrome.storage.local\<close>, with the keys the core reads and writes.\<close>

record local_storage =
  masterPassword :: "jsstr option"
  accounts :: "account list option"
  environments :: "environment list option"
  stored_config :: "securityConfig option"
  backup_v1_2_0 :: "backup option"

text \<open>\<open>chrome.storage.session\<close>, the mirror of the session.\<close>

record session_storage =
  stored_sessionKey :: "jsstr option"
  stored_sessionMode :: "jsstr option"
  sessionCreatedAt :: "int option"

definition empty_session :: session_storage where
  "empty_session =
     \<lparr>stored_sessionKey = None, stored_sessionMode = None, sessionCreatedAt = None\<rparr>"

text \<open>
  The whole state: both stores, the service worker's variables \<open>sessionKey\<close> and
  \<open>sessionMode\<close> (background.js lines 9-10), the time at which the alarm
  \<open>sessionTimeout\<close> is due if one is pending, the clock read by \<open>Date.now()\<close>, the
  position in the random source, and the accounts named by \<open>console.warn\<close>.
\<close>

text \<open>
  A handler or method runs from start to end on one state and one reading of the clock:
  the \<open>await\<close> points of the source are not interleaved with other handlers. Calls of
  \<open>chrome.storage.local\<close>, \<open>chrome.alarms\<close> and \<open>chrome.runtime.sendMessage\<close> do
  not fail; \<open>chrome.storage.session\<close> may be missing, as the source allows for it.
\<close>

record world =
  local :: local_storage
  session :: session_storage
  sessionKey :: "jsstr option"
  sessionMode :: jsstr
  alarm :: "int option"
  now :: int
  cursor :: nat
  warnings :: "jsstr list"

section \<open>The session authority (background.js lines 192-335)\<close>

datatype response = Success | SuccessKey jsstr | SessionExpired

text \<open>\<open>x || 'default'\<close> on a value that is a string or missing.\<close>

definition or_default :: "jsstr option \<Rightarrow> jsstr" where
  "or_default m = (case m of None \<Rightarrow> js ''default'' | Some x \<Rightarrow> if x = [] then js ''default'' else x)"

text \<open>\<open>Math.max(1, Math.ceil((endOfDay - now) / 60000))\<close>\<close>

definition minutesLeft :: "platform \<Rightarrow> int \<Rightarrow> int" where
  "minutesLeft P t = max 1 (- ((- (endOfDay P t - t)) div 60000))"

definition setSessionKey :: "platform \<Rightarrow> jsstr \<Rightarrow> jsstr option \<Rightarrow> world \<Rightarrow> response \<times> world" where
  "setSessionKey P keyData mode w =
     (let m = or_default mode;
          w1 = w\<lparr>sessionKey := Some keyData, sessionMode := m\<rparr>;
          w2 = w1\<lparr>alarm := None\<rparr>;
          w3 = (if m = js ''default'' then w2\<lparr>alarm := Some (now w + 30 * 60000)\<rparr>
                else if m = js ''today''
                  then w2\<lparr>alarm := Some (now w + minutesLeft P (now w) * 60000)\<rparr>
                else w2);
          w4 = (if session_available P
                then w3\<lparr>session := \<lparr>stored_sessionKey = Some keyData,
                                     stored_sessionMode = Some m,
                                     sessionCreatedAt = Some (now w)\<rparr>\<rparr>
                else w3)
      in (Success, w4))"

text \<open>The expiry recomputed from the mirror, lines 248-255.\<close>

definition expired :: "platform \<Rightarrow> jsstr \<Rightarrow> int \<Rightarrow> int \<Rightarrow> bool" where
  "expired P mode created t =
     (if mode = js ''default'' \<and> t - created > 30 * 60 * 1000 then True
      else if mode = js ''today'' then toDateString P created \<noteq> toDateString P t
      else False)"

text \<open>
  The three branches of the message listener. \<open>restoreSession\<close> is the part of the
  \<open>getSessionKey\<close> branch that runs when the worker's variable holds no key, lines
  239-273.
\<close>

definition restoreSession :: "platform \<Rightarrow> world \<Rightarrow> response \<times> world" where
  "restoreSession P w =
     (if \<not> session_available P then (SessionExpired, w)
      else case stored_sessionKey (session w) of
             None \<Rightarrow> (SessionExpired, w)
           | Some k \<Rightarrow>
               if k = [] then (SessionExpired, w)
               else
                 (let mode = or_default (stored_sessionMode (session w));
                      created = (case sessionCreatedAt (session w) of None \<Rightarrow> 0 | Some c \<Rightarrow> c)
                  in if \<not> expired P mode created (now w)
                     then (SuccessKey k, w\<lparr>sessionKey := Some k, sessionMode := mode\<rparr>)
                     else (SessionExpired, w\<lparr>session := empty_session\<rparr>)))"

definition getSessionKey :: "platform \<Rightarrow> world \<Rightarrow> response \<times> world" where
  "getSessionKey P w =
     (case sessionKey w of
        None \<Rightarrow> restoreSession P w
      | Some k \<Rightarrow> if k = [] then restoreSession P w else (SuccessKey k, w))"

definition clearSession :: "platform \<Rightarrow> world \<Rightarrow> response \<times> world" where
  "clearSession P w =
     (Success,
      w\<lparr>sessionKey := None, sessionMode := js ''default'', alarm := None,
        session := (if session_available P then empty_session else session w)\<rparr>)"

text \<open>The listener of \<open>chrome.alarms.onAlarm\<close>, run when the pending alarm fires.\<close>

definition onAlarm :: "platform \<Rightarrow> world \<Rightarrow> world" where
  "onAlarm P w =
     w\<lparr>sessionKey := None, sessionMode := js ''default'', alarm := None,
       session := (if session_available P then empty_session else session w)\<rparr>"

text \<open>
  The environment of the service worker: the clock moves, the browser fires the alarm once
  it is due, and the worker may be stopped and started again, which resets its variables
  and keeps the alarm and both stores.
\<close>

definition at :: "int \<Rightarrow> world \<Rightarrow> world" where
  "at t w = w\<lparr>now := t\<rparr>"

definition deliver_alarm :: "platform \<Rightarrow> world \<Rightarrow> world" where
  "deliver_alarm P w =
     (case alarm w of
        None \<Rightarrow> w
      | Some due \<Rightarrow> if due \<le> now w then onAlarm P w else w)"

definition restart :: "world \<Rightarrow> world" where
  "restart w = w\<lparr>sessionKey := None, sessionMode := js ''default''\<rparr>"




section \<open>\<open>SecurityManager\<close> (part_002)\<close>

text \<open>The fields set by the constructor, lines 13-29.\<close>

record securityManager =
  VERIFICATION_TEXT :: jsstr
  PBKDF2_ITERATIONS :: nat
  SALT_LENGTH :: nat
  PASSWORD_MIN_LENGTH :: nat
  PASSWORD_REQUIRE_UPPER :: bool
  PASSWORD_REQUIRE_LOWER :: bool
  PASSWORD_REQUIRE_NUMBER :: bool

definition new_SecurityManager :: securityManager where
  "new_SecurityManager =
     \<lparr>VERIFICATION_TEXT = js ''account-manager-security-v2'',
      PBKDF2_ITERATIONS = 120000,
      SALT_LENGTH = 16,
      PASSWORD_MIN_LENGTH = 8,
      PASSWORD_REQUIRE_UPPER = True,
      PASSWORD_REQUIRE_LOWER = True,
      PASSWORD_REQUIRE_NUMBER = True\<rparr>"

text \<open>The messages of the result objects; each constructor is one string literal of the
  source, named by its line in part_002.\<close>

datatype message =
    MsgEmpty                    \<comment> \<open>line 38\<close>
  | MsgTooShort                 \<comment> \<open>line 44\<close>
  | MsgNeedUpper                \<comment> \<open>line 53\<close>
  | MsgNeedLower                \<comment> \<open>line 57\<close>
  | MsgNeedNumber               \<comment> \<open>line 61\<close>
  | MsgStrengthOk               \<comment> \<open>line 64\<close>
  | MsgInitOk                   \<comment> \<open>line 231\<close>
  | MsgInitFailed js_error      \<comment> \<open>line 234, with the error's message appended\<close>
  | MsgNoConfig                 \<comment> \<open>line 249\<close>
  | MsgVerifyOk                 \<comment> \<open>line 273\<close>
  | MsgWrongPassword            \<comment> \<open>lines 275 and 279, the same literal\<close>
  | MsgVerifyFailed js_error    \<comment> \<open>line 283, with the error's message appended\<close>
  | MsgNoOldData                \<comment> \<open>line 316\<close>
  | MsgOldPasswordWrong         \<comment> \<open>line 320\<close>
  | MsgMigrateOk                \<comment> \<open>line 383\<close>
  | MsgMigrateFailed js_error   \<comment> \<open>line 386, with the error's message appended\<close>

record result =
  success :: bool
  message :: message

record verify_result = result +
  key :: "byte list option"

definition has_between :: "nat \<Rightarrow> nat \<Rightarrow> jsstr \<Rightarrow> bool" where
  "has_between lo hi s = list_ex (\<lambda>c. lo \<le> unat c \<and> unat c \<le> hi) s"

definition validatePasswordStrength :: "securityManager \<Rightarrow> jsstr \<Rightarrow> result" where
  "validatePasswordStrength this pwd =
     (if pwd = [] then \<lparr>success = False, message = MsgEmpty\<rparr>
      else if length pwd < PASSWORD_MIN_LENGTH this
        then \<lparr>success = False, message = MsgTooShort\<rparr>
      else
        (let hasUpper = has_between 65 90 pwd;
             hasLower = has_between 97 122 pwd;
             hasNumber = has_between 48 57 pwd
         in if PASSWORD_REQUIRE_UPPER this \<and> \<not> hasUpper
              then \<lparr>success = False, message = MsgNeedUpper\<rparr>
            else if PASSWORD_REQUIRE_LOWER this \<and> \<not> hasLower
              then \<lparr>success = False, message = MsgNeedLower\<rparr>
            else if PASSWORD_REQUIRE_NUMBER this \<and> \<not> hasNumber
              then \<lparr>success = False, message = MsgNeedNumber\<rparr>
            else \<lparr>success = True, message = MsgStrengthOk\<rparr>))"

definition deriveKey :: "securityManager \<Rightarrow> platform \<Rightarrow> jsstr \<Rightarrow> byte list \<Rightarrow> byte list" where
  "deriveKey this P pwd salt' =
     pbkdf2_sha256 P (TextEncoder_encode pwd) salt' (PBKDF2_ITERATIONS this)"

text \<open>\<open>encrypt\<close> with the nonce drawn by \<open>crypto.getRandomValues\<close> as an argument.\<close>

definition encrypt :: "platform \<Rightarrow> byte list \<Rightarrow> jsstr \<Rightarrow> byte list \<Rightarrow> js_error + jsstr" where
  "encrypt P iv plaintext k =
     (let data' = TextEncoder_encode plaintext;
          encrypted = aes_gcm_encrypt P k iv data'
      in arrayBufferToBase64 (iv @ encrypted))"

definition decrypt :: "platform \<Rightarrow> jsstr \<Rightarrow> byte list \<Rightarrow> js_error + jsstr" where
  "decrypt P ciphertext k =
     bindE (base64ToArrayBuffer ciphertext) (\<lambda>data'.
       let iv = take 12 data';
           encrypted = drop 12 data'
       in case aes_gcm_decrypt P k iv encrypted of
            None \<Rightarrow> Inl OperationError
          | Some decrypted \<Rightarrow> Inr (TextDecoder_decode decrypted))"

text \<open>\<open>decrypt(encrypt(s, k1), k2)\<close>\<close>

definition decrypt_encrypt ::
  "platform \<Rightarrow> byte list \<Rightarrow> jsstr \<Rightarrow> byte list \<Rightarrow> byte list \<Rightarrow> js_error + jsstr" where
  "decrypt_encrypt P iv s k1 k2 = bindE (encrypt P iv s k1) (\<lambda>c. decrypt P c k2)"

text \<open>\<open>decryptPassword(encryptPassword(s, k1), k2)\<close> of \<open>CryptoUtils\<close>\<close>

definition decryptPassword_encryptPassword ::
  "platform \<Rightarrow> byte list \<Rightarrow> byte list \<Rightarrow> jsstr \<Rightarrow> key_arg \<Rightarrow> key_arg \<Rightarrow> js_error + jsstr" where
  "decryptPassword_encryptPassword P salt' iv s k1 k2 =
     bindE (encryptPassword P salt' iv s k1) (\<lambda>c. decryptPassword P c k2)"

definition initializeMasterPassword ::
  "securityManager \<Rightarrow> platform \<Rightarrow> jsstr \<Rightarrow> world \<Rightarrow> result \<times> world" where
  "initializeMasterPassword this P masterPassword' w =
     (let validation = validatePasswordStrength this masterPassword'
      in if \<not> success validation
         then (\<lparr>success = False, message = message validation\<rparr>, w)
         else
           (let salt' = getRandomValues P (cursor w) (SALT_LENGTH this);
                w1 = w\<lparr>cursor := cursor w + SALT_LENGTH this\<rparr>;
                k = deriveKey this P masterPassword' salt';
                iv = getRandomValues P (cursor w1) 12;
                w2 = w1\<lparr>cursor := cursor w1 + 12\<rparr>
            in case encrypt P iv (VERIFICATION_TEXT this) k of
                 Inl e \<Rightarrow> (\<lparr>success = False, message = MsgInitFailed e\<rparr>, w2)
               | Inr verificationData' \<Rightarrow>
                   (case arrayBufferToBase64 salt' of
                      Inl e \<Rightarrow> (\<lparr>success = False, message = MsgInitFailed e\<rparr>, w2)
                    | Inr salt64 \<Rightarrow>
                        (let config = \<lparr>version = js ''2.0'', salt = salt64,
                                       iterations = PBKDF2_ITERATIONS this,
                                       verificationData = verificationData',
                                       createdAt = now w\<rparr>;
                             w3 = w2\<lparr>local := (local w2)\<lparr>stored_config := Some config\<rparr>\<rparr>
                         in case arrayBufferToBase64 k of
                              Inl e \<Rightarrow> (\<lparr>success = False, message = MsgInitFailed e\<rparr>, w3)
                            | Inr keyData \<Rightarrow>
                                (\<lparr>success = True, message = MsgInitOk\<rparr>,
                                 snd (setSessionKey P keyData (Some (js ''default'')) w3))))))"

definition verifyMasterPassword ::
  "securityManager \<Rightarrow> platform \<Rightarrow> jsstr \<Rightarrow> jsstr \<Rightarrow> world \<Rightarrow> verify_result \<times> world" where
  "verifyMasterPassword this P inputPassword mode w =
     (case stored_config (local w) of
        None \<Rightarrow> (\<lparr>success = False, message = MsgNoConfig, key = None\<rparr>, w)
      | Some config \<Rightarrow>
          (case base64ToArrayBuffer (salt config) of
             Inl e \<Rightarrow> (\<lparr>success = False, message = MsgVerifyFailed e, key = None\<rparr>, w)
           | Inr salt' \<Rightarrow>
               (let k = deriveKey this P inputPassword salt'
                in case decrypt P (verificationData config) k of
                     Inl e \<Rightarrow> (\<lparr>success = False, message = MsgWrongPassword, key = None\<rparr>, w)
                   | Inr decrypted \<Rightarrow>
                       if decrypted = VERIFICATION_TEXT this
                       then (case arrayBufferToBase64 k of
                               Inl e \<Rightarrow>
                                 (\<lparr>success = False, message = MsgWrongPassword, key = None\<rparr>, w)
                             | Inr keyData \<Rightarrow>
                                 (\<lparr>success = True, message = MsgVerifyOk, key = Some k\<rparr>,
                                  snd (setSessionKey P keyData (Some mode) w)))
                       else (\<lparr>success = False, message = MsgWrongPassword, key = None\<rparr>, w))))"

text \<open>
  The first loop of \<open>migrateFromOldVersion\<close>, lines 327-353. An element of
  \<open>decryptedAccounts\<close> is the account with its \<open>decryptedPassword\<close>; the second
  component collects the accounts named by \<open>console.warn\<close>.
\<close>

definition decryptAccount ::
  "platform \<Rightarrow> jsstr \<Rightarrow> account \<Rightarrow> (account \<times> jsstr option) \<times> jsstr list" where
  "decryptAccount P oldMasterPassword a =
     (case password a of
        None \<Rightarrow> ((a, password a), [])
      | Some p \<Rightarrow>
          if window_cryptoUtils P \<and> p \<noteq> [] then
            (case CryptoUtils_decrypt P p (KeyString oldMasterPassword) of
               Inr decrypted \<Rightarrow> ((a, Some decrypted), [])
             | Inl e \<Rightarrow> ((a, password a), [username a]))
          else ((a, password a), []))"

fun decryptAccounts ::
  "platform \<Rightarrow> jsstr \<Rightarrow> account list \<Rightarrow> (account \<times> jsstr option) list \<times> jsstr list" where
  "decryptAccounts P oldMasterPassword [] = ([], [])"
| "decryptAccounts P oldMasterPassword (a # rest) =
     (let (d, warned) = decryptAccount P oldMasterPassword a;
          (ds, warned') = decryptAccounts P oldMasterPassword rest
      in (d # ds, warned @ warned'))"

text \<open>
  The second loop, lines 367-375, drawing one nonce per account. A missing
  \<open>decryptedPassword\<close> is encoded by \<open>TextEncoder.encode\<close> as the empty string.
\<close>

fun reEncryptAccounts ::
  "platform \<Rightarrow> byte list \<Rightarrow> (account \<times> jsstr option) list \<Rightarrow> nat \<Rightarrow> js_error + account list" where
  "reEncryptAccounts P newKey [] cur = Inr []"
| "reEncryptAccounts P newKey ((a, decryptedPassword) # rest) cur =
     (case encrypt P (getRandomValues P cur 12)
             (case decryptedPassword of None \<Rightarrow> [] | Some p \<Rightarrow> p) newKey of
        Inl e \<Rightarrow> Inl e
      | Inr encrypted \<Rightarrow>
          (case reEncryptAccounts P newKey rest (cur + 12) of
             Inl e \<Rightarrow> Inl e
           | Inr done \<Rightarrow> Inr (a\<lparr>password := Some encrypted\<rparr> # done)))"

definition migrateFromOldVersion ::
  "securityManager \<Rightarrow> platform \<Rightarrow> jsstr \<Rightarrow> jsstr \<Rightarrow> world \<Rightarrow> result \<times> world" where
  "migrateFromOldVersion this P oldMasterPassword newMasterPassword w =
     (case masterPassword (local w) of
        None \<Rightarrow> (\<lparr>success = False, message = MsgNoOldData\<rparr>, w)
      | Some stored \<Rightarrow>
          if stored = [] then (\<lparr>success = False, message = MsgNoOldData\<rparr>, w)
          else if stored \<noteq> oldMasterPassword
            then (\<lparr>success = False, message = MsgOldPasswordWrong\<rparr>, w)
          else
            (let accs = (case accounts (local w) of None \<Rightarrow> [] | Some l \<Rightarrow> l);
                 (decryptedAccounts, warned) = decryptAccounts P oldMasterPassword accs;
                 w1 = w\<lparr>warnings := warnings w @ warned\<rparr>;
                 (initResult, w2) = initializeMasterPassword this P newMasterPassword w1
             in if \<not> success initResult then (initResult, w2)
                else
                  (case stored_config (local w2) of
                     None \<Rightarrow> (\<lparr>success = False, message = MsgMigrateFailed TypeError\<rparr>, w2)
                   | Some config \<Rightarrow>
                       (case base64ToArrayBuffer (salt config) of
                          Inl e \<Rightarrow> (\<lparr>success = False, message = MsgMigrateFailed e\<rparr>, w2)
                        | Inr newSalt \<Rightarrow>
                            (let newKey = deriveKey this P newMasterPassword newSalt
                             in case reEncryptAccounts P newKey decryptedAccounts (cursor w2) of
                                  Inl e \<Rightarrow>
                                    (\<lparr>success = False, message = MsgMigrateFailed e\<rparr>, w2)
                                | Inr reEncryptedAccounts \<Rightarrow>
                                    (\<lparr>success = True, message = MsgMigrateOk\<rparr>,
                                     w2\<lparr>cursor := cursor w2 + 12 * length decryptedAccounts,
                                        local := (local w2)\<lparr>accounts := Some reEncryptedAccounts,
                                                           masterPassword := None\<rparr>\<rparr>))))))"

section \<open>A small platform on which the model runs\<close>

text \<open>
  A stand-in for the browser, used to run the model on concrete inputs: a key derivation
  that adds up its inputs, a cipher that shifts every byte by the key's first byte plus
  the nonce's sum and appends a 16-byte checksum of key, nonce and ciphertext, a counter
  as random source, and the UTC calendar. Like PBKDF2 and AES-GCM it derives another key
  from another iteration count, decrypts what it encrypted, appends 16 bytes, and rejects
  a ciphertext under a key other than the derived one.
\<close>

definition demo_pbkdf2 :: "byte list \<Rightarrow> byte list \<Rightarrow> nat \<Rightarrow> byte list" where
  "demo_pbkdf2 pwd salt' n =
     map (\<lambda>i. sum_list pwd + sum_list salt' + of_nat n + i)
       [0, 1, 2, 3, 4, 5, 6, 7, 8, 9, 10, 11, 12, 13, 14, 15,
        16, 17, 18, 19, 20, 21, 22, 23, 24, 25, 26, 27, 28, 29, 30, 31]"

definition demo_mix :: "byte list \<Rightarrow> byte list \<Rightarrow> byte" where
  "demo_mix k iv = (case k of [] \<Rightarrow> 0 | x # r \<Rightarrow> x) + sum_list iv"

definition demo_tag :: "byte list \<Rightarrow> byte list \<Rightarrow> byte list \<Rightarrow> byte list" where
  "demo_tag k iv c =
     map (\<lambda>i. demo_mix k iv + sum_list c + i)
       [0, 1, 2, 3, 4, 5, 6, 7, 8, 9, 10, 11, 12, 13, 14, 15]"

definition demo_encrypt :: "byte list \<Rightarrow> byte list \<Rightarrow> byte list \<Rightarrow> byte list" where
  "demo_encrypt k iv d =
     (let c = map (\<lambda>x. x + demo_mix k iv) d in c @ demo_tag k iv c)"

definition demo_decrypt :: "byte list \<Rightarrow> byte list \<Rightarrow> byte list \<Rightarrow> byte list option" where
  "demo_decrypt k iv e =
     (if length e < 16 then None
      else
        (let c = take (length e - 16) e;
             t = drop (length e - 16) e
         in if t = demo_tag k iv c then Some (map (\<lambda>x. x - demo_mix k iv) c)
            else None))"

definition demo_platform :: platform where
  "demo_platform =
     \<lparr>pbkdf2_sha256 = demo_pbkdf2,
      aes_gcm_encrypt = demo_encrypt,
      aes_gcm_decrypt = demo_decrypt,
      random_source = (\<lambda>i. of_nat (5 * i + 1)),
      toDateString = (\<lambda>t. [of_nat (nat (t div 86400000))]),
      endOfDay = (\<lambda>t. (t div 86400000) * 86400000 + 86399000),
      session_available = True,
      window_cryptoUtils = True\<rparr>"

definition empty_world :: world where
  "empty_world =
     \<lparr>local = \<lparr>masterPassword = None, accounts = None, environments = None,
               stored_config = None, backup_v1_2_0 = None\<rparr>,
      session = empty_session,
      sessionKey = None,
      sessionMode = js ''default'',
      alarm = None,
      now = 0,
      cursor = 0,
      warnings = []\<rparr>"

text \<open>
  A legacy installation: the plaintext passphrase \<open>OldPass1\<close>, one account whose
  password was encrypted under the legacy scheme and one whose stored password is not a
  ciphertext at all, no \<open>securityConfig\<close> and no backup.
\<close>

definition legacy_secret :: jsstr where
  "legacy_secret =
     (case CryptoUtils_encrypt demo_platform
             [1, 2, 3, 4, 5, 6, 7, 8, 9, 10, 11, 12, 13, 14, 15, 16]
             [21, 22, 23, 24, 25, 26, 27, 28, 29, 30, 31, 32]
             (js ''s3cret'') (KeyString (js ''OldPass1'')) of
        Inl e \<Rightarrow> []
      | Inr c \<Rightarrow> c)"

definition legacy_world :: world where
  "legacy_world =
     empty_world\<lparr>local := (local empty_world)
       \<lparr>masterPassword := Some (js ''OldPass1''),
        accounts := Some
          [\<lparr>account_id = js ''a1'', envId = js ''e1'', username = js ''alice'',
            password = Some legacy_secret\<rparr>,
           \<lparr>account_id = js ''a2'', envId = js ''e1'', username = js ''bob'',
            password = Some (js ''plain'')\<rparr>]\<rparr>\<rparr>"

text \<open>The password stored for the account at a position of the collection.\<close>

definition stored_password :: "world \<Rightarrow> nat \<Rightarrow> jsstr option" where
  "stored_password w i =
     (case accounts (local w) of
        None \<Rightarrow> None
      | Some l \<Rightarrow> if i < length l then password (l ! i) else None)"


text \<open>Two stored configurations with one corrupt field each.\<close>

definition corrupt_salt_world :: world where
  "corrupt_salt_world =
     empty_world\<lparr>local := (local empty_world)\<lparr>stored_config :=
       Some \<lparr>version = js ''2.0'', salt = js ''!'', iterations = 120000,
             verificationData = js ''AAAA'', createdAt = 0\<rparr>\<rparr>\<rparr>"

definition corrupt_marker_world :: world where
  "corrupt_marker_world =
     empty_world\<lparr>local := (local empty_world)\<lparr>stored_config :=
       Some \<lparr>version = js ''2.0'', salt = js ''AAAA'', iterations = 120000,
             verificationData = js ''!'', createdAt = 0\<rparr>\<rparr>\<rparr>"

section \<open>The session modes as the specification names them\<close>

datatype session_mode = Fixed | EndOfDay | UntilBrowserClose

fun mode_name :: "session_mode \<Rightarrow> jsstr" where
  "mode_name Fixed = js ''default''"
| "mode_name EndOfDay = js ''today''"
| "mode_name UntilBrowserClose = js ''browser''"

text \<open>
  The recomputed expiry rule in the specification's words: \<open>Fixed\<close> is expired at and
  after the instant at which the 30-minute duration has elapsed since creation,
  \<open>EndOfDay\<close> when the calendar day of creation is not today, \<open>UntilBrowserClose\<close>
  never by time.
\<close>

definition SESSION_DURATION :: int where
  "SESSION_DURATION = 30 * 60 * 1000"

fun session_expired :: "platform \<Rightarrow> session_mode \<Rightarrow> int \<Rightarrow> int \<Rightarrow> bool" where
  "session_expired P Fixed created t = (SESSION_DURATION \<le> t - created)"
| "session_expired P EndOfDay created t = (toDateString P created \<noteq> toDateString P t)"
| "session_expired P UntilBrowserClose created t = False"

section \<open>Base64 round trip\<close>

text \<open>\<open>base64ToArrayBuffer\<close> inverts \<open>arrayBufferToBase64\<close>, which never throws.\<close>

lemma b64_code_bound: "b64_code n < 128"
  by (auto simp: b64_code_def)

lemma unat_b64_digit: "unat (b64_digit n) = b64_code n"
proof -
  have "b64_code n < 2 ^ 16" using b64_code_bound [of n] by simp
  then show ?thesis by (simp add: b64_digit_def unat_of_nat)
qed

lemma b64_value_digit: "n < 64 \<Longrightarrow> b64_value (b64_digit n) = Some n"
  by (auto simp: b64_value_def unat_b64_digit Let_def b64_code_def)

lemma b64_digit_not_ws: "n < 64 \<Longrightarrow> \<not> ascii_whitespace (b64_digit n)"
  by (auto simp: ascii_whitespace_def unat_b64_digit Let_def b64_code_def)

lemma b64_digit_not_pad: "n < 64 \<Longrightarrow> b64_digit n \<noteq> 61"
proof
  assume n: "n < 64" and e: "b64_digit n = 61"
  from e have "unat (b64_digit n) = 61" by simp
  with n show False by (auto simp: unat_b64_digit b64_code_def split: if_splits)
qed

lemma pad_not_ws: "\<not> ascii_whitespace 61"
  by (simp add: ascii_whitespace_def)

lemma b64_body_bound: "list_all (\<lambda>a. a < 256) xs \<Longrightarrow> list_all (\<lambda>n. n < 64) (b64_body xs)"
  by (induction xs rule: b64_body.induct) auto

lemma b64_groups_length: "length (b64_groups xs) = 4 * ((length xs + 2) div 3)"
proof (induction xs rule: b64_groups.induct)
  case (1 a b c r)
  have "(length r + 5) div 3 = Suc ((length r + 2) div 3)" by simp
  with 1 show ?case by (simp add: add.commute)
qed simp_all

lemma b64_groups_no_ws:
  "list_all (\<lambda>a. a < 256) xs \<Longrightarrow> filter (\<lambda>c. \<not> ascii_whitespace c) (b64_groups xs) = b64_groups xs"
  by (induction xs rule: b64_groups.induct) (auto simp: b64_digit_not_ws pad_not_ws)

lemma strip_padding_append:
  "2 \<le> length ys \<Longrightarrow> strip_padding (xs @ ys) = xs @ strip_padding ys"
proof -
  assume "2 \<le> length ys"
  then obtain c1 c2 r where r: "rev ys = c1 # c2 # r"
    by (cases "rev ys"; cases "tl (rev ys)") (auto simp: Suc_le_eq dest: arg_cong [where f = length])
  then show ?thesis
    by (simp add: strip_padding_def)
qed

lemma strip_padding_groups:
  "list_all (\<lambda>a. a < 256) xs \<Longrightarrow> strip_padding (b64_groups xs) = map b64_digit (b64_body xs)"
proof (induction xs rule: b64_groups.induct)
  case (1 a b c r)
  show ?case
  proof (cases r)
    case Nil
    have "c mod 64 < 64" by simp
    then show ?thesis using Nil by (simp add: strip_padding_def b64_digit_not_pad)
  next
    case (Cons x xs)
    then have "2 \<le> length (b64_groups r)" by (simp add: b64_groups_length)
    from strip_padding_append [OF this, of "[b64_digit (a div 4), b64_digit ((a mod 4) * 16 + b div 16),
      b64_digit ((b mod 16) * 4 + c div 64), b64_digit (c mod 64)]"] 1
    show ?thesis by simp
  qed
next
  case (2 a b)
  have "(b mod 16) * 4 < 64" by simp
  then show ?case by (simp add: strip_padding_def b64_digit_not_pad)
next
  case (3 a)
  have "(a mod 4) * 16 < 64" by simp
  then show ?case by (simp add: strip_padding_def b64_digit_not_pad)
next
  case 4
  show ?case by (simp add: strip_padding_def)
qed

lemma d16: "b < 256 \<Longrightarrow> b div 16 < (16::nat)"
  by (simp add: less_mult_imp_div_less)
lemma d64: "c < 256 \<Longrightarrow> c div 64 < (4::nat)"
  by (simp add: less_mult_imp_div_less)
lemma sextets1: "b < 256 \<Longrightarrow> a div 4 * 4 + (a mod 4 * 16 + b div 16) div 16 = (a::nat)"
  using d16 [of b] by simp
lemma sextets2: "b < 256 \<Longrightarrow> c < 256 \<Longrightarrow> (a mod 4 * 16 + b div 16) mod 16 * 16 + (b mod 16 * 4 + c div 64) div 4 = (b::nat)"
  using d16 [of b] d64 [of c] by simp
lemma sextets3: "c < 256 \<Longrightarrow> (b mod 16 * 4 + c div 64) mod 4 * 64 + c mod 64 = (c::nat)"
  using d64 [of c] by simp
lemma sextets2': "b < 256 \<Longrightarrow> (a mod 4 * 16 + b div 16) mod 16 * 16 + (b mod 16 * 4) div 4 = (b::nat)"
  using d16 [of b] by simp
lemma sextets1': "a div 4 * 4 + (a mod 4 * 16) div 16 = (a::nat)"
  by simp

lemma b64_bytes_body:
  "list_all (\<lambda>a. a < 256) xs \<Longrightarrow> b64_bytes (b64_body xs) = xs"
proof (induction xs rule: b64_body.induct)
  case (1 a b c r)
  then have b: "b < 256" and c: "c < 256" and IH: "b64_bytes (b64_body r) = r"
    by simp_all
  show ?case
    by (simp only: b64_body.simps b64_bytes.simps append_Cons append_Nil
        sextets1 [OF b] sextets2 [OF b c] sextets3 [OF c] IH)
next
  case (2 a b)
  then have b: "b < 256" by simp
  show ?case
    by (simp only: b64_body.simps b64_bytes.simps sextets1 [OF b] sextets2' [OF b])
next
  case (3 a)
  show ?case
    by (simp only: b64_body.simps b64_bytes.simps sextets1')
next
  case 4
  show ?case by simp
qed

lemma b64_body_length: "length (b64_body xs) mod 4 \<noteq> 1"
  by (induction xs rule: b64_body.induct) simp_all

lemma unat_byte_less: "unat (b :: byte) < 256"
  using unsigned_less [of b] by simp

lemma unat_ucast_byte: "unat (ucast (b :: byte) :: 16 word) = unat b"
  using unat_byte_less [of b] by (simp add: unsigned_ucast_eq take_bit_nat_eq_self)

lemma ucast_ucast_byte: "(ucast (ucast (b :: byte) :: 16 word) :: byte) = b"
  by (simp add: ucast_up_ucast_id is_up)

lemma list_all_unat_byte: "list_all (\<lambda>a. a < 256) (map unat (bs :: byte list))"
  by (simp add: list_all_iff unat_byte_less)

lemma btoa_bytes: "arrayBufferToBase64 bs = Inr (b64_groups (map unat bs))"
proof -
  have "(ucast (b :: byte) :: 16 word) \<le> 0xFF" for b
    using unat_byte_less [of b] by (simp add: word_le_nat_alt unat_ucast_byte)
  then have "list_all (\<lambda>c. c \<le> 0xFF) (map ucast bs :: jsstr)"
    by (simp add: list_all_iff)
  moreover have "unat \<circ> (ucast :: byte \<Rightarrow> 16 word) = unat"
    by (simp add: fun_eq_iff unat_ucast_byte)
  ultimately show ?thesis by (simp add: arrayBufferToBase64_def btoa_def)
qed

lemma atob_groups:
  assumes "list_all (\<lambda>a. a < 256) xs"
  shows "atob (b64_groups xs) = Inr (map of_nat xs)"
proof -
  let ?body = "map b64_digit (b64_body xs)"
  have len: "length (b64_groups xs) mod 4 = 0" by (simp add: b64_groups_length)
  have valid: "list_all (\<lambda>c. b64_value c \<noteq> None) ?body"
    using b64_body_bound [OF assms] by (simp add: list_all_iff b64_value_digit)
  have vals: "map (\<lambda>c. the (b64_value c)) ?body = b64_body xs"
    using b64_body_bound [OF assms] by (simp add: list_all_iff b64_value_digit map_idI)
  show ?thesis
    using len valid vals b64_body_length [of xs]
    by (simp add: atob_def b64_groups_no_ws [OF assms] strip_padding_groups [OF assms]
        b64_bytes_body [OF assms])
qed

lemma base64_roundtrip:
  "arrayBufferToBase64 bs = Inr s \<Longrightarrow> base64ToArrayBuffer s = Inr bs"
proof -
  assume "arrayBufferToBase64 bs = Inr s"
  then have s: "s = b64_groups (map unat bs)" by (simp add: btoa_bytes)
  have "map ucast (map of_nat (map unat bs) :: jsstr) = bs"
    by (induction bs) (simp_all add: ucast_ucast_byte)
  then show ?thesis
    by (simp add: s base64ToArrayBuffer_def bindE_def atob_groups [OF list_all_unat_byte])
qed

section \<open>UTF-8 round trip\<close>

text \<open>
  \<open>TextDecoder.decode\<close> after \<open>TextEncoder.encode\<close> returns the scalar values of the
  string without a leading \<open>U+FEFF\<close>; that is the string itself when it has no unpaired
  surrogate and does not begin with \<open>U+FEFF\<close>.
\<close>

lemma mod_add_mult: "h < m \<Longrightarrow> (k * m + h) mod m = (h::nat)"
  by simp
lemma lead2: "h < 32 \<Longrightarrow> (192 + h) mod 32 = (h::nat)"
  using mod_add_mult [of h 32 6] by simp
lemma cont: "l < 64 \<Longrightarrow> (128 + l) mod 64 = (l::nat)"
  using mod_add_mult [of l 64 2] by simp
lemma lead3: "h < 16 \<Longrightarrow> (224 + h) mod 16 = (h::nat)"
  using mod_add_mult [of h 16 14] by simp
lemma lead4: "h < 8 \<Longrightarrow> (240 + h) mod 8 = (h::nat)"
  using mod_add_mult [of h 8 30] by simp

lemma digits:
  fixes c :: nat
  shows "c div 64 * 64 + c mod 64 = c"
    and "c div 4096 * 64 + c div 64 mod 64 = c div 64"
    and "c div 262144 * 64 + c div 4096 mod 64 = c div 4096"
    and "c mod 64 < 64" and "c div 64 mod 64 < 64" and "c div 4096 mod 64 < 64"
proof -
  have a: "c div 4096 = c div 64 div 64" by (simp add: div_mult2_eq[symmetric])
  have b: "c div 262144 = c div 4096 div 64" by (simp add: div_mult2_eq[symmetric])
  show "c div 64 * 64 + c mod 64 = c" by simp
  show "c div 4096 * 64 + c div 64 mod 64 = c div 64" unfolding a by simp
  show "c div 262144 * 64 + c div 4096 mod 64 = c div 4096" unfolding b by simp
qed simp_all

lemma decode2_aux:
  assumes "2 \<le> h" "h < 32" "d0 < 64"
  shows "utf8_decode 0 0 0 0x80 0xBF ((0xC0 + h) # (0x80 + d0) # rest) =
         (h * 64 + d0) # utf8_decode 0 0 0 0x80 0xBF rest"
  using assms by (simp add: lead2 cont)

lemma decode3_aux:
  assumes "h < 16" "d1 < 64" "d0 < 64" "h = 0 \<longrightarrow> 32 \<le> d1" "h = 13 \<longrightarrow> d1 < 32"
  shows "utf8_decode 0 0 0 0x80 0xBF ((0xE0 + h) # (0x80 + d1) # (0x80 + d0) # rest) =
         ((h * 64 + d1) * 64 + d0) # utf8_decode 0 0 0 0x80 0xBF rest"
  using assms by (auto simp: lead3 cont)

lemma decode4_aux:
  assumes "h \<le> 4" "d2 < 64" "d1 < 64" "d0 < 64" "h = 0 \<longrightarrow> 16 \<le> d2" "h = 4 \<longrightarrow> d2 < 16"
  shows "utf8_decode 0 0 0 0x80 0xBF ((0xF0 + h) # (0x80 + d2) # (0x80 + d1) # (0x80 + d0) # rest) =
         (((h * 64 + d2) * 64 + d1) * 64 + d0) # utf8_decode 0 0 0 0x80 0xBF rest"
  using assms by (auto simp: lead4 cont)

lemma decode_units:
  assumes "scalar c"
  shows "utf8_decode 0 0 0 0x80 0xBF (utf8_units c @ rest) = c # utf8_decode 0 0 0 0x80 0xBF rest"
proof -
  consider "c < 0x80" | "0x80 \<le> c" "c < 0x800" | "0x800 \<le> c" "c < 0x10000"
    | "0x10000 \<le> c" "c < 0x110000"
    using assms unfolding scalar_def by linarith
  then show ?thesis
  proof cases
    case 1
    then show ?thesis by (simp add: utf8_units_def)
  next
    case 2
    have "2 \<le> c div 64" "c div 64 < 32" using 2 by linarith+
    from decode2_aux [OF this digits(4) [of c], of rest] 2
    show ?thesis by (simp add: utf8_units_def)
  next
    case 3
    have a: "c div 4096 < 16" using 3 by linarith
    have b: "c div 4096 = 0 \<longrightarrow> 32 \<le> c div 64 mod 64" using 3 digits [of c] by linarith
    have "c < 0xD800 \<or> 0xDFFF < c" using assms by (auto simp: scalar_def)
    then have d: "c div 4096 = 13 \<longrightarrow> c div 64 mod 64 < 32" using 3 digits [of c] by linarith
    have r: "(c div 4096 * 64 + c div 64 mod 64) * 64 + c mod 64 = c" by (simp only: digits)
    from decode3_aux [OF a digits(5) [of c] digits(4) [of c] b d, of rest] 3 r
    show ?thesis by (simp add: utf8_units_def)
  next
    case 4
    have a: "c div 262144 \<le> 4" using 4 by linarith
    have b: "c div 262144 = 0 \<longrightarrow> 16 \<le> c div 4096 mod 64" using 4 digits [of c] by linarith
    have d: "c div 262144 = 4 \<longrightarrow> c div 4096 mod 64 < 16" using 4 digits [of c] by linarith
    have r: "((c div 262144 * 64 + c div 4096 mod 64) * 64 + c div 64 mod 64) * 64 + c mod 64 = c"
      by (simp only: digits)
    from decode4_aux [OF a digits(6) [of c] digits(5) [of c] digits(4) [of c] b d, of rest] 4 r
    show ?thesis by (simp add: utf8_units_def)
  qed
qed

lemma decode_concat:
  "list_all scalar cps \<Longrightarrow> utf8_decode 0 0 0 0x80 0xBF (concat (map utf8_units cps)) = cps"
  by (induction cps) (simp_all add: decode_units)

lemma utf8_units_bytes: "c < 0x110000 \<Longrightarrow> list_all (\<lambda>b. b < 256) (utf8_units c)"
proof -
  assume c: "c < 0x110000"
  have "c < 0x800 \<Longrightarrow> c div 64 < 32" by linarith
  moreover have "c < 0x10000 \<Longrightarrow> c div 4096 < 16" by linarith
  moreover have "c div 262144 \<le> 4" using c by linarith
  ultimately show ?thesis using digits(4-6) [of c]
    by (auto simp: utf8_units_def)
qed

lemma unat_unit_less: "unat (c :: 16 word) < 65536"
  using unsigned_less [of c] by simp

lemma lone_unit_scalar: "scalar (lone_unit c)"
  using unat_unit_less [of c]
  by (auto simp: lone_unit_def scalar_def high_surrogate_def low_surrogate_def)

lemma pair_scalar:
  "high_surrogate c \<Longrightarrow> low_surrogate d \<Longrightarrow>
   scalar (0x10000 + (unat c - 0xD800) * 0x400 + (unat d - 0xDC00))"
  by (auto simp: scalar_def high_surrogate_def low_surrogate_def)

lemma scalar_values_scalar: "list_all scalar (scalar_values s)"
  by (induction s rule: scalar_values.induct) (simp_all add: lone_unit_scalar pair_scalar)

lemma scalar_less: "scalar c \<Longrightarrow> c < 0x110000"
  by (simp add: scalar_def)

lemma unat_of_nat_bytes:
  "list_all (\<lambda>b. b < 256) xs \<Longrightarrow> map unat (map of_nat xs :: byte list) = xs"
  by (induction xs) (simp_all add: unat_of_nat)

lemma utf8_concat_bytes:
  "list_all scalar cps \<Longrightarrow> list_all (\<lambda>b. b < 256) (concat (map utf8_units cps))"
  by (induction cps) (simp_all add: utf8_units_bytes scalar_less)

lemma decode_encode:
  "TextDecoder_decode (TextEncoder_encode s) =
   concat (map utf16_units (strip_bom (scalar_values s)))"
  by (simp only: TextDecoder_decode_def TextEncoder_encode_def
      unat_of_nat_bytes [OF utf8_concat_bytes [OF scalar_values_scalar]]
      decode_concat [OF scalar_values_scalar])

lemma utf16_lone: "\<not> high_surrogate c \<Longrightarrow> \<not> low_surrogate c \<Longrightarrow> utf16_units (lone_unit c) = [c]"
  using unat_unit_less [of c] by (simp add: utf16_units_def lone_unit_def)

lemma utf16_pair:
  assumes "high_surrogate c" "low_surrogate d"
  shows "utf16_units (0x10000 + (unat c - 0xD800) * 0x400 + (unat d - 0xDC00)) = [c, d]"
proof -
  define h where "h = unat c - 0xD800"
  define l where "l = unat d - 0xDC00"
  have h: "unat c = 0xD800 + h" "h < 0x400" using assms(1) by (auto simp: h_def high_surrogate_def)
  have l: "unat d = 0xDC00 + l" "l < 0x400" using assms(2) by (auto simp: l_def low_surrogate_def)
  have "(h * 0x400 + l) div 0x400 = h" "(h * 0x400 + l) mod 0x400 = l" using l(2) by simp_all
  moreover have "of_nat (0xD800 + h) = c" "of_nat (0xDC00 + l) = d"
    using h(1) [symmetric] l(1) [symmetric] by (simp_all del: of_nat_add)
  ultimately show ?thesis
    unfolding h_def [symmetric] l_def [symmetric]
    by (simp add: utf16_units_def del: of_nat_add)
qed

lemma utf16_scalar_values: "well_formed s \<Longrightarrow> concat (map utf16_units (scalar_values s)) = s"
proof (induction s rule: scalar_values.induct)
  case 1
  show ?case by simp
next
  case (2 c)
  then show ?case by (simp add: utf16_lone)
next
  case (3 c d r)
  show ?case
  proof (cases "high_surrogate c")
    case True
    with 3 show ?thesis by (simp add: utf16_pair)
  next
    case False
    with 3 show ?thesis by (simp add: utf16_lone)
  qed
qed

lemma lone_unit_bom: "lone_unit c = 0xFEFF \<longleftrightarrow> c = 0xFEFF"
proof
  assume "lone_unit c = 0xFEFF"
  then have "unat c = 0xFEFF" by (simp add: lone_unit_def split: if_splits)
  then have "of_nat (unat c) = (of_nat 0xFEFF :: 16 word)" by (simp only:)
  then show "c = 0xFEFF" by simp
next
  assume "c = 0xFEFF"
  then show "lone_unit c = 0xFEFF"
    by (simp add: lone_unit_def high_surrogate_def low_surrogate_def)
qed

lemma strip_bom_scalar_values:
  "s = [] \<or> hd s \<noteq> 0xFEFF \<Longrightarrow> strip_bom (scalar_values s) = scalar_values s"
  by (induction s rule: scalar_values.induct) (auto simp: strip_bom_def lone_unit_bom)

lemma text_roundtrip:
  "well_formed s \<Longrightarrow> s = [] \<or> hd s \<noteq> 0xFEFF \<Longrightarrow> TextDecoder_decode (TextEncoder_encode s) = s"
  by (simp add: decode_encode strip_bom_scalar_values utf16_scalar_values)

section \<open>The codec on top of the round trips\<close>

text \<open>What \<open>encrypt\<close> produces, what \<open>isBase64\<close> says of it, and what \<open>decrypt\<close>
  and the legacy \<open>CryptoUtils.decrypt\<close> make of it.\<close>

lemma b64_groups_split: "b64_groups xs = map b64_digit (b64_body xs) @ b64_padding xs"
  by (induction xs rule: b64_groups.induct) simp_all

lemma b64_padding_length: "length (b64_padding xs) \<le> 2"
  by (induction xs rule: b64_padding.induct) simp_all

lemma b64_padding_all: "list_all (\<lambda>c. c = 61) (b64_padding xs)"
  by (induction xs rule: b64_padding.induct) simp_all

lemma b64_value_pad: "b64_value 61 = None"
  by (simp add: b64_value_def)

lemma b64_body_nonempty: "xs \<noteq> [] \<Longrightarrow> b64_body xs \<noteq> []"
  by (induction xs rule: b64_body.induct) simp_all

lemma takeWhile_digits:
  assumes "list_all (\<lambda>a. a < 256) xs"
  shows "takeWhile (\<lambda>c. b64_value c \<noteq> None) (b64_groups xs) = map b64_digit (b64_body xs)"
    and "dropWhile (\<lambda>c. b64_value c \<noteq> None) (b64_groups xs) = b64_padding xs"
proof -
  have digits: "\<And>x. x \<in> set (map b64_digit (b64_body xs)) \<Longrightarrow> b64_value x \<noteq> None"
    using b64_body_bound [OF assms] by (auto simp: list_all_iff b64_value_digit simp del: not_None_eq)
  have pad: "takeWhile (\<lambda>c. b64_value c \<noteq> None) (b64_padding xs) = []"
    "dropWhile (\<lambda>c. b64_value c \<noteq> None) (b64_padding xs) = b64_padding xs"
    by (induction xs rule: b64_padding.induct) (simp_all add: b64_value_pad del: not_None_eq)
  show "takeWhile (\<lambda>c. b64_value c \<noteq> None) (b64_groups xs) = map b64_digit (b64_body xs)"
    unfolding b64_groups_split using pad(1) by (simp only: takeWhile_append2 [OF digits] append_Nil2)
  show "dropWhile (\<lambda>c. b64_value c \<noteq> None) (b64_groups xs) = b64_padding xs"
    unfolding b64_groups_split using pad(2) by (simp only: dropWhile_append2 [OF digits])
qed

lemma base64Regex_groups:
  "list_all (\<lambda>a. a < 256) xs \<Longrightarrow> xs \<noteq> [] \<Longrightarrow> base64Regex (b64_groups xs)"
  by (simp add: base64Regex_def takeWhile_digits b64_body_nonempty b64_padding_length b64_padding_all
      del: not_None_eq)

lemma isBase64_groups:
  assumes "list_all (\<lambda>a. a < 256) xs" "28 \<le> length xs"
  shows "isBase64 (b64_groups xs)"
proof -
  have ne: "xs \<noteq> []" using assms(2) by auto
  then have "b64_groups xs \<noteq> []" by (cases xs rule: b64_groups.cases) simp_all
  moreover have "length (b64_groups xs) mod 4 = 0" by (simp add: b64_groups_length)
  ultimately show ?thesis
    using assms(2) by (simp add: isBase64_def base64Regex_groups [OF assms(1) ne] atob_groups [OF assms(1)])
qed

lemma encrypt_eq:
  "encrypt P iv s k = Inr (b64_groups (map unat (iv @ aes_gcm_encrypt P k iv (TextEncoder_encode s))))"
  by (simp add: encrypt_def btoa_bytes)

lemma base64ToArrayBuffer_groups:
  "base64ToArrayBuffer (b64_groups (map unat bs)) = Inr bs"
  by (rule base64_roundtrip) (simp add: btoa_bytes)

lemma decrypt_encrypt_eq:
  "length iv = 12 \<Longrightarrow>
   decrypt_encrypt P iv s k1 k2 =
     (case aes_gcm_decrypt P k2 iv (aes_gcm_encrypt P k1 iv (TextEncoder_encode s)) of
        None \<Rightarrow> Inl OperationError
      | Some d \<Rightarrow> Inr (TextDecoder_decode d))"
  by (simp add: decrypt_encrypt_def encrypt_eq decrypt_def bindE_def base64ToArrayBuffer_groups
      del: map_append)

lemma isBase64_encrypt:
  assumes "gcm_tag_length P" "length iv = 12" "encrypt P iv s k = Inr c"
  shows "isBase64 c"
proof -
  have "28 \<le> length (map unat (iv @ aes_gcm_encrypt P k iv (TextEncoder_encode s)))"
    using assms(1,2) by (simp add: gcm_tag_length_def)
  from isBase64_groups [OF list_all_unat_byte this] assms(3) show ?thesis
    by (simp add: encrypt_eq)
qed

lemma demo_gcm_correct: "gcm_correct demo_platform"
  by (simp add: gcm_correct_def demo_platform_def demo_encrypt_def demo_decrypt_def demo_tag_def Let_def o_def)

lemma demo_gcm_tag_length: "gcm_tag_length demo_platform"
  by (simp add: gcm_tag_length_def demo_platform_def demo_encrypt_def demo_tag_def Let_def)

lemma length_getRandomValues: "length (getRandomValues P cur n) = n"
  by (simp add: getRandomValues_def)

lemma demo_wrong_key:
  assumes "demo_mix k2 iv \<noteq> demo_mix k1 iv"
  shows "demo_decrypt k2 iv (demo_encrypt k1 iv d) = None"
  using assms by (simp add: demo_encrypt_def demo_decrypt_def demo_tag_def Let_def)

lemma decrypt_wrong_key:
  "length iv = 12 \<Longrightarrow>
   aes_gcm_decrypt P k2 iv (aes_gcm_encrypt P k1 iv (TextEncoder_encode s)) = None \<Longrightarrow>
   decrypt_encrypt P iv s k1 k2 = Inl OperationError"
  by (simp add: decrypt_encrypt_eq)

lemma decrypt_encrypt_same_key:
  "gcm_correct P \<Longrightarrow> length iv = 12 \<Longrightarrow>
   decrypt_encrypt P iv s k k = Inr (TextDecoder_decode (TextEncoder_encode s))"
  by (simp add: decrypt_encrypt_eq gcm_correct_def)

lemma CryptoUtils_encrypt_eq:
  "CryptoUtils_encrypt P salt' iv s k =
     Inr (b64_groups (map unat (salt' @ iv @
       aes_gcm_encrypt P (CryptoUtils_deriveKey P k salt') iv (TextEncoder_encode s))))"
  by (simp add: CryptoUtils_encrypt_def btoa_bytes Let_def)

lemma CryptoUtils_decrypt_encrypt:
  assumes "length salt' = 16" "length iv = 12"
  shows "CryptoUtils_decrypt P
           (b64_groups (map unat (salt' @ iv @
              aes_gcm_encrypt P (CryptoUtils_deriveKey P k1 salt') iv (TextEncoder_encode s)))) k2 =
         (case aes_gcm_decrypt P (CryptoUtils_deriveKey P k2 salt') iv
                 (aes_gcm_encrypt P (CryptoUtils_deriveKey P k1 salt') iv (TextEncoder_encode s)) of
            None \<Rightarrow> Inl LegacyDecryptError
          | Some d \<Rightarrow> Inr (TextDecoder_decode d))"
  using assms by (simp add: CryptoUtils_decrypt_def base64ToArrayBuffer_groups Let_def del: map_append)

lemma CryptoUtils_deriveKey_object:
  "CryptoUtils_deriveKey P (KeyObject k1) salt' = CryptoUtils_deriveKey P (KeyObject k2) salt'"
  by (simp add: CryptoUtils_deriveKey_def)

lemma decryptPassword_encryptPassword_object:
  assumes "gcm_correct P" "length salt' = 16" "length iv = 12"
  shows "decryptPassword_encryptPassword P salt' iv s (KeyObject k1) (KeyObject k2) =
         Inr (TextDecoder_decode (TextEncoder_encode s))"
proof -
  let ?c = "b64_groups (map unat (salt' @ iv @
       aes_gcm_encrypt P (CryptoUtils_deriveKey P (KeyObject k1) salt') iv (TextEncoder_encode s)))"
  have "28 \<le> length (map unat (salt' @ iv @
       aes_gcm_encrypt P (CryptoUtils_deriveKey P (KeyObject k1) salt') iv (TextEncoder_encode s)))"
    using assms(2,3) by simp
  then have b: "isBase64 ?c" by (rule isBase64_groups [OF list_all_unat_byte])
  have d: "CryptoUtils_decrypt P ?c (KeyObject k2) = Inr (TextDecoder_decode (TextEncoder_encode s))"
    using assms(1)
    by (simp only: CryptoUtils_decrypt_encrypt [OF assms(2,3)]
        CryptoUtils_deriveKey_object [of P k2 salt' k1] gcm_correct_def option.case)
  show ?thesis
    by (simp add: decryptPassword_encryptPassword_def encryptPassword_def decryptPassword_def
        CryptoUtils_encrypt_eq bindE_def b d del: map_append)
qed

section \<open>Initialisation and verification\<close>

text \<open>The configuration that \<open>initializeMasterPassword\<close> stores, and
  \<open>verifyMasterPassword\<close> on a configuration of that form.\<close>

lemma initialize_success:
  assumes "success (validatePasswordStrength this pw)"
  shows "initializeMasterPassword this P pw w =
    (let salt' = getRandomValues P (cursor w) (SALT_LENGTH this);
         k = deriveKey this P pw salt';
         iv = getRandomValues P (cursor w + SALT_LENGTH this) 12;
         config = \<lparr>version = js ''2.0'', salt = b64_groups (map unat salt'),
                   iterations = PBKDF2_ITERATIONS this,
                   verificationData = b64_groups (map unat
                     (iv @ aes_gcm_encrypt P k iv (TextEncoder_encode (VERIFICATION_TEXT this)))),
                   createdAt = now w\<rparr>
     in (\<lparr>success = True, message = MsgInitOk\<rparr>,
         snd (setSessionKey P (b64_groups (map unat k)) (Some (js ''default''))
           (w\<lparr>cursor := cursor w + SALT_LENGTH this + 12,
              local := (local w)\<lparr>stored_config := Some config\<rparr>\<rparr>))))"
  using assms
  by (simp add: initializeMasterPassword_def encrypt_eq btoa_bytes Let_def del: map_append)

lemma verify_stored:
  assumes "stored_config (local w) = Some config"
    and "salt config = b64_groups (map unat sb)"
    and "verificationData config = b64_groups (map unat (iv @ ct))"
    and "length iv = 12"
  shows "verifyMasterPassword this P pw mode w =
    (case aes_gcm_decrypt P (deriveKey this P pw sb) iv ct of
       None \<Rightarrow> (\<lparr>success = False, message = MsgWrongPassword, key = None\<rparr>, w)
     | Some d \<Rightarrow>
         if TextDecoder_decode d = VERIFICATION_TEXT this
         then (\<lparr>success = True, message = MsgVerifyOk, key = Some (deriveKey this P pw sb)\<rparr>,
               snd (setSessionKey P (b64_groups (map unat (deriveKey this P pw sb))) (Some mode) w))
         else (\<lparr>success = False, message = MsgWrongPassword, key = None\<rparr>, w))"
  using assms
  by (simp add: verifyMasterPassword_def base64ToArrayBuffer_groups decrypt_def bindE_def
      btoa_bytes Let_def del: map_append split: option.split)

lemma verify_ignores_iterations:
  "fst (verifyMasterPassword this P pw mode
          (w\<lparr>local := (local w)\<lparr>stored_config := Some (config\<lparr>iterations := n\<rparr>)\<rparr>\<rparr>)) =
   fst (verifyMasterPassword this P pw mode
          (w\<lparr>local := (local w)\<lparr>stored_config := Some config\<rparr>\<rparr>))"
  by (simp add: verifyMasterPassword_def Let_def split: sum.split)

lemma setSessionKey_local: "local (snd (setSessionKey P k m w)) = local w"
  by (simp add: setSessionKey_def Let_def)

lemma valid_Abcd1234: "success (validatePasswordStrength (new_SecurityManager\<lparr>PBKDF2_ITERATIONS := n\<rparr>) (js ''Abcd1234''))"
  by (simp add: validatePasswordStrength_def new_SecurityManager_def has_between_def js_def)

lemma demo_derived_keys_differ:
  "demo_mix (deriveKey new_SecurityManager demo_platform pw sb) iv \<noteq>
   demo_mix (deriveKey (new_SecurityManager\<lparr>PBKDF2_ITERATIONS := 100000\<rparr>) demo_platform pw sb) iv"
  by (simp add: deriveKey_def demo_platform_def demo_pbkdf2_def demo_mix_def new_SecurityManager_def)

lemma atob_bang: "base64ToArrayBuffer [33] = Inl InvalidCharacterError"
  by (simp add: base64ToArrayBuffer_def atob_def bindE_def ascii_whitespace_def b64_value_def)

lemma verify_corrupt_marker:
  "fst (verifyMasterPassword new_SecurityManager demo_platform (js ''Abcd1234'') (js ''default'')
     corrupt_marker_world)
   = \<lparr>success = False, message = MsgWrongPassword, key = None\<rparr>"
  by (simp add: verifyMasterPassword_def corrupt_marker_world_def empty_world_def js_def
      decrypt_def base64ToArrayBuffer_def atob_def bindE_def ascii_whitespace_def b64_value_def
      strip_padding_def)

lemma verify_after_initialize:
  assumes "gcm_correct P" "success (validatePasswordStrength this pw)"
    and "well_formed (VERIFICATION_TEXT this)"
    and "VERIFICATION_TEXT this = [] \<or> hd (VERIFICATION_TEXT this) \<noteq> 0xFEFF"
  shows "success (fst (verifyMasterPassword this P pw mode
           (snd (initializeMasterPassword this P pw w))))"
proof -
  let ?sb = "getRandomValues P (cursor w) (SALT_LENGTH this)"
  let ?iv = "getRandomValues P (cursor w + SALT_LENGTH this) 12"
  let ?k = "deriveKey this P pw ?sb"
  let ?ct = "aes_gcm_encrypt P ?k ?iv (TextEncoder_encode (VERIFICATION_TEXT this))"
  let ?w = "snd (initializeMasterPassword this P pw w)"
  have cfg: "stored_config (local ?w) =
    Some \<lparr>version = js ''2.0'', salt = b64_groups (map unat ?sb), iterations = PBKDF2_ITERATIONS this,
          verificationData = b64_groups (map unat (?iv @ ?ct)), createdAt = now w\<rparr>"
    by (simp add: initialize_success [OF assms(2)] Let_def setSessionKey_local del: map_append)
  have some: "aes_gcm_decrypt P ?k ?iv ?ct = Some (TextEncoder_encode (VERIFICATION_TEXT this))"
    using assms(1) by (simp add: gcm_correct_def)
  show ?thesis
    using verify_stored [where sb = ?sb and iv = ?iv and ct = ?ct and this = this
        and P = P and pw = pw and mode = mode, OF cfg] some text_roundtrip [OF assms(3,4)]
    by (simp add: length_getRandomValues)
qed

lemma well_formed_ascii: "list_all (\<lambda>c. unat c < 0xD800) s \<Longrightarrow> well_formed s"
  by (induction s rule: well_formed.induct) (auto simp: high_surrogate_def low_surrogate_def)

lemma marker_well_formed:
  "well_formed (VERIFICATION_TEXT new_SecurityManager)"
  "VERIFICATION_TEXT new_SecurityManager = [] \<or> hd (VERIFICATION_TEXT new_SecurityManager) \<noteq> 0xFEFF"
proof -
  show "well_formed (VERIFICATION_TEXT new_SecurityManager)"
    by (rule well_formed_ascii) (simp add: new_SecurityManager_def js_def)
  show "VERIFICATION_TEXT new_SecurityManager = [] \<or> hd (VERIFICATION_TEXT new_SecurityManager) \<noteq> 0xFEFF"
    by (simp add: new_SecurityManager_def js_def)
qed

lemma hunter2_well_formed:
  "well_formed (js ''hunter2'')" "js ''hunter2'' = [] \<or> hd (js ''hunter2'') \<noteq> 0xFEFF"
proof -
  show "well_formed (js ''hunter2'')"
    by (rule well_formed_ascii) (simp add: js_def)
  show "js ''hunter2'' = [] \<or> hd (js ''hunter2'') \<noteq> 0xFEFF"
    by (simp add: js_def)
qed

lemma isBase64_example: "isBase64 (js ''QUJDREVGR0hJSktMTU5PUFFSU1RVVldYWVphYmM='')"
  by (simp add: isBase64_def base64Regex_def atob_def b64_value_def js_def strip_padding_def
      ascii_whitespace_def)

section \<open>Migration\<close>

text \<open>The two loops of \<open>migrateFromOldVersion\<close>, then the method as a whole.\<close>

lemma decryptAccounts_fst: "map fst (fst (decryptAccounts P old accs)) = accs"
  by (induction accs) (auto simp: decryptAccount_def split: prod.splits option.splits sum.splits)

lemma decryptAccounts_length: "length (fst (decryptAccounts P old accs)) = length accs"
  using decryptAccounts_fst [of P old accs, THEN arg_cong, of length] by simp

lemma decryptAccounts_failed:
  assumes "i < length accs" "password (accs ! i) = Some c" "c \<noteq> []" "window_cryptoUtils P"
    and "CryptoUtils_decrypt P c (KeyString old) = Inl e"
  shows "fst (decryptAccounts P old accs) ! i = (accs ! i, Some c)
         \<and> username (accs ! i) \<in> set (snd (decryptAccounts P old accs))"
  using assms
proof (induction accs arbitrary: i)
  case Nil
  then show ?case by simp
next
  case (Cons a accs)
  show ?case
  proof (cases i)
    case 0
    with Cons.prems show ?thesis
      by (simp add: decryptAccount_def split: prod.splits)
  next
    case (Suc j)
    with Cons.prems have "fst (decryptAccounts P old accs) ! j = (accs ! j, Some c)
         \<and> username (accs ! j) \<in> set (snd (decryptAccounts P old accs))"
      by (intro Cons.IH) simp_all
    with Suc show ?thesis
      by (auto split: prod.splits)
  qed
qed

lemma reEncryptAccounts_total:
  "\<exists>out. reEncryptAccounts P k ds cur = Inr out \<and> length out = length ds \<and>
     (\<forall>i<length ds. \<forall>c.
        encrypt P (getRandomValues P (cur + 12 * i) 12)
          (case snd (ds ! i) of None \<Rightarrow> [] | Some p \<Rightarrow> p) k = Inr c \<longrightarrow>
        out ! i = (fst (ds ! i))\<lparr>password := Some c\<rparr>)"
proof (induction ds arbitrary: cur)
  case Nil
  show ?case by simp
next
  case (Cons d ds)
  obtain a dp where d: "d = (a, dp)" by (cases d)
  from Cons.IH [of "cur + 12"] obtain out where
    out: "reEncryptAccounts P k ds (cur + 12) = Inr out" "length out = length ds"
      "\<forall>i<length ds. \<forall>c.
        encrypt P (getRandomValues P (cur + 12 + 12 * i) 12)
          (case snd (ds ! i) of None \<Rightarrow> [] | Some p \<Rightarrow> p) k = Inr c \<longrightarrow>
        out ! i = (fst (ds ! i))\<lparr>password := Some c\<rparr>"
    by blast
  obtain c0 where c0: "encrypt P (getRandomValues P cur 12)
          (case dp of None \<Rightarrow> [] | Some p \<Rightarrow> p) k = Inr c0"
    by (simp add: encrypt_eq)
  have "\<forall>i<length (d # ds). \<forall>c.
        encrypt P (getRandomValues P (cur + 12 * i) 12)
          (case snd ((d # ds) ! i) of None \<Rightarrow> [] | Some p \<Rightarrow> p) k = Inr c \<longrightarrow>
        (a\<lparr>password := Some c0\<rparr> # out) ! i = (fst ((d # ds) ! i))\<lparr>password := Some c\<rparr>"
  proof (intro allI impI)
    fix i c
    assume i: "i < length (d # ds)"
      and e: "encrypt P (getRandomValues P (cur + 12 * i) 12)
          (case snd ((d # ds) ! i) of None \<Rightarrow> [] | Some p \<Rightarrow> p) k = Inr c"
    show "(a\<lparr>password := Some c0\<rparr> # out) ! i = (fst ((d # ds) ! i))\<lparr>password := Some c\<rparr>"
    proof (cases i)
      case 0
      with e c0 d show ?thesis by simp
    next
      case (Suc j)
      with i have j: "j < length ds" by simp
      have "cur + 12 + 12 * j = cur + 12 * Suc j" by simp
      with out(3) j e Suc show ?thesis by (simp add: add.assoc)
    qed
  qed
  with out(1,2) c0 d show ?case by simp
qed

lemma setSessionKey_cursor: "cursor (snd (setSessionKey P k m w)) = cursor w"
  by (simp add: setSessionKey_def Let_def)

lemma setSessionKey_warnings: "warnings (snd (setSessionKey P k m w)) = warnings w"
  by (simp add: setSessionKey_def Let_def)

lemma migrate_success:
  fixes P :: platform and this :: securityManager and w :: world and old new :: jsstr
  assumes "masterPassword (local w) = Some old" "old \<noteq> []"
    and "success (validatePasswordStrength this new)"
  defines "accs \<equiv> (case accounts (local w) of None \<Rightarrow> [] | Some l \<Rightarrow> l)"
  defines "sb \<equiv> getRandomValues P (cursor w) (SALT_LENGTH this)"
  defines "w' \<equiv> snd (migrateFromOldVersion this P old new w)"
  shows "\<exists>out config.
     reEncryptAccounts P (deriveKey this P new sb) (fst (decryptAccounts P old accs))
       (cursor w + SALT_LENGTH this + 12) = Inr out
     \<and> fst (migrateFromOldVersion this P old new w) = \<lparr>success = True, message = MsgMigrateOk\<rparr>
     \<and> accounts (local w') = Some out
     \<and> masterPassword (local w') = None
     \<and> backup_v1_2_0 (local w') = backup_v1_2_0 (local w)
     \<and> environments (local w') = environments (local w)
     \<and> warnings w' = warnings w @ snd (decryptAccounts P old accs)
     \<and> stored_config (local w') = Some config
     \<and> salt config = b64_groups (map unat sb)"
proof -
  obtain out where out:
    "reEncryptAccounts P (deriveKey this P new sb) (fst (decryptAccounts P old accs))
       (cursor w + SALT_LENGTH this + 12) = Inr out"
    using reEncryptAccounts_total by blast
  show ?thesis
    using assms(1-3) out
    unfolding w'_def
    by (simp add: migrateFromOldVersion_def case_prod_beta Let_def initialize_success
        setSessionKey_local setSessionKey_cursor setSessionKey_warnings
        base64ToArrayBuffer_groups accs_def [symmetric] sb_def [symmetric] del: map_append)
qed

lemma length_utf8_units: "1 \<le> length (utf8_units c)" "0x10000 \<le> c \<Longrightarrow> 2 \<le> length (utf8_units c)"
  by (simp_all add: utf8_units_def)

lemma length_scalar_values: "length s \<le> length (concat (map utf8_units (scalar_values s)))"
proof (induction s rule: scalar_values.induct)
  case 1
  show ?case by simp
next
  case (2 c)
  show ?case using length_utf8_units(1) [of "lone_unit c"] by simp
next
  case (3 c d r)
  show ?case
  proof (cases "high_surrogate c \<and> low_surrogate d")
    case True
    have "2 \<le> length (utf8_units (0x10000 + (unat c - 0xD800) * 0x400 + (unat d - 0xDC00)))"
      by (rule length_utf8_units(2)) simp
    with True 3 show ?thesis by simp
  next
    case False
    with 3 length_utf8_units(1) [of "lone_unit c"] show ?thesis by auto
  qed
qed

lemma length_TextEncoder: "length s \<le> length (TextEncoder_encode s)"
  using length_scalar_values [of s] by (simp add: TextEncoder_encode_def)

lemma encrypt_longer:
  assumes "gcm_tag_length P" "encrypt P iv s k = Inr c"
  shows "length s < length c"
proof -
  let ?n = "length (iv @ aes_gcm_encrypt P k iv (TextEncoder_encode s))"
  have "length s + 16 \<le> ?n"
    using assms(1) length_TextEncoder [of s] by (simp add: gcm_tag_length_def)
  moreover have "length c = 4 * ((?n + 2) div 3)"
  proof -
    have "c = b64_groups (map unat (iv @ aes_gcm_encrypt P k iv (TextEncoder_encode s)))"
      using assms(2) by (simp add: encrypt_eq del: map_append)
    then show ?thesis by (simp only: b64_groups_length length_map)
  qed
  ultimately show ?thesis by linarith
qed

lemma migrate_failed_item:
  fixes P :: platform and this :: securityManager and w :: world and old new :: jsstr
  assumes "masterPassword (local w) = Some old" "old \<noteq> []"
    and "success (validatePasswordStrength this new)"
    and "accounts (local w) = Some accs" "i < length accs"
    and "password (accs ! i) = Some c" "c \<noteq> []" "window_cryptoUtils P"
    and "CryptoUtils_decrypt P c (KeyString old) = Inl e"
  shows "username (accs ! i) \<in> set (warnings (snd (migrateFromOldVersion this P old new w)))
     \<and> (\<exists>iv c'. length iv = 12
          \<and> encrypt P iv c (deriveKey this P new (getRandomValues P (cursor w) (SALT_LENGTH this)))
              = Inr c'
          \<and> stored_password (snd (migrateFromOldVersion this P old new w)) i = Some c')"
proof -
  let ?w' = "snd (migrateFromOldVersion this P old new w)"
  let ?k = "deriveKey this P new (getRandomValues P (cursor w) (SALT_LENGTH this))"
  let ?ds = "fst (decryptAccounts P old accs)"
  let ?cur = "cursor w + SALT_LENGTH this + 12"
  from migrate_success [OF assms(1-3), of P] assms(4)
  obtain out where out: "reEncryptAccounts P ?k ?ds ?cur = Inr out"
    and acc: "accounts (local ?w') = Some out"
    and warn: "warnings ?w' = warnings w @ snd (decryptAccounts P old accs)"
    by auto
  from decryptAccounts_failed [OF assms(5-9)]
  have d: "?ds ! i = (accs ! i, Some c)"
    and u: "username (accs ! i) \<in> set (snd (decryptAccounts P old accs))"
    by simp_all
  from reEncryptAccounts_total [of P ?k ?ds ?cur] out
  have len: "length out = length ?ds"
    and nth: "\<forall>j<length ?ds. \<forall>c'.
        encrypt P (getRandomValues P (?cur + 12 * j) 12)
          (case snd (?ds ! j) of None \<Rightarrow> [] | Some p \<Rightarrow> p) ?k = Inr c' \<longrightarrow>
        out ! j = (fst (?ds ! j))\<lparr>password := Some c'\<rparr>"
    by auto
  let ?iv = "getRandomValues P (?cur + 12 * i) 12"
  obtain c' where c': "encrypt P ?iv c ?k = Inr c'" by (simp add: encrypt_eq)
  have i: "i < length ?ds" using assms(5) by (simp add: decryptAccounts_length)
  with nth d c' have "out ! i = (accs ! i)\<lparr>password := Some c'\<rparr>" by simp
  with acc len i have "stored_password ?w' i = Some c'"
    by (simp add: stored_password_def)
  with c' u warn show ?thesis
    using length_getRandomValues [of P "?cur + 12 * i" 12] by auto
qed

section \<open>Migration as a whole\<close>



lemma migrate_keeps_backup:
  fixes P :: platform and this :: securityManager and w :: world and old new :: jsstr
  assumes "masterPassword (local w) = Some old" "old \<noteq> []"
    and "success (validatePasswordStrength this new)"
  shows "success (fst (migrateFromOldVersion this P old new w))
    \<and> masterPassword (local (snd (migrateFromOldVersion this P old new w))) = None
    \<and> backup_v1_2_0 (local (snd (migrateFromOldVersion this P old new w))) =
        backup_v1_2_0 (local w)"
  using migrate_success [OF assms, of P] by auto

lemma migrate_failed_item_differs:
  fixes P :: platform and this :: securityManager and w :: world and old new :: jsstr
  assumes "masterPassword (local w) = Some old" "old \<noteq> []"
    and "success (validatePasswordStrength this new)"
    and "accounts (local w) = Some accs" "i < length accs"
    and "password (accs ! i) = Some c" "c \<noteq> []" "window_cryptoUtils P"
    and "CryptoUtils_decrypt P c (KeyString old) = Inl e"
    and "gcm_tag_length P"
  shows "username (accs ! i) \<in> set (warnings (snd (migrateFromOldVersion this P old new w)))
     \<and> (\<exists>iv c'. length iv = 12
          \<and> encrypt P iv c (deriveKey this P new (getRandomValues P (cursor w) (SALT_LENGTH this)))
              = Inr c'
          \<and> stored_password (snd (migrateFromOldVersion this P old new w)) i = Some c'
          \<and> c' \<noteq> c)"
proof -
  from migrate_failed_item [OF assms(1-9)]
  obtain iv c' where u: "username (accs ! i) \<in> set (warnings (snd (migrateFromOldVersion this P old new w)))"
    and iv: "length iv = 12"
    and c': "encrypt P iv c (deriveKey this P new (getRandomValues P (cursor w) (SALT_LENGTH this))) = Inr c'"
    and st: "stored_password (snd (migrateFromOldVersion this P old new w)) i = Some c'"
    by blast
  from encrypt_longer [OF assms(10) c'] have "c' \<noteq> c" by auto
  with u iv c' st show ?thesis by blast
qed

lemma legacy_world_fields:
  "masterPassword (local legacy_world) = Some (js ''OldPass1'')"
  "accounts (local legacy_world) = Some
          [\<lparr>account_id = js ''a1'', envId = js ''e1'', username = js ''alice'',
            password = Some legacy_secret\<rparr>,
           \<lparr>account_id = js ''a2'', envId = js ''e1'', username = js ''bob'',
            password = Some (js ''plain'')\<rparr>]"
  "environments (local legacy_world) = None"
  "backup_v1_2_0 (local legacy_world) = None"
  "now legacy_world = 0"
  by (simp_all add: legacy_world_def empty_world_def)

lemma OldPass1_nonempty: "js ''OldPass1'' \<noteq> []"
  by (simp add: js_def)

lemma plain_nonempty: "js ''plain'' \<noteq> []"
  by (simp add: js_def)

lemma valid_new: "success (validatePasswordStrength new_SecurityManager (js ''Abcd1234''))"
  using valid_Abcd1234 [of 120000] by (simp add: new_SecurityManager_def)

lemma plain_not_decryptable:
  "CryptoUtils_decrypt demo_platform (js ''plain'') (KeyString (js ''OldPass1'')) = Inl LegacyDecryptError"
  by (simp add: CryptoUtils_decrypt_def base64ToArrayBuffer_def atob_def bindE_def
      ascii_whitespace_def b64_value_def js_def)

lemma demo_window_cryptoUtils: "window_cryptoUtils demo_platform"
  by (simp add: demo_platform_def)











section \<open>The session authority after a restart\<close>

text \<open>\<open>getSessionKey\<close> after \<open>setSessionKey\<close>, with and without a restart in between,
  and with and without the alarm.\<close>

lemma mode_names:
  "js ''default'' \<noteq> []" "js ''today'' \<noteq> []" "js ''browser'' \<noteq> []"
  "js ''default'' \<noteq> js ''today''" "js ''today'' \<noteq> js ''default''"
  "js ''browser'' \<noteq> js ''default''" "js ''browser'' \<noteq> js ''today''"
  by (simp_all add: js_def)

lemma or_default_Some: "m \<noteq> [] \<Longrightarrow> or_default (Some m) = m"
  by (simp add: or_default_def)

lemma mode_name_nonempty: "mode_name m \<noteq> []"
  by (cases m) (simp_all add: mode_names)

lemma expired_mode_name:
  "expired P (mode_name m) created t =
     (session_expired P m created t \<and> \<not> (m = Fixed \<and> t - created = SESSION_DURATION))"
  by (cases m) (auto simp: expired_def SESSION_DURATION_def mode_names)

lemma restore_after_set:
  assumes "k \<noteq> []" "session_available P" "m \<noteq> []"
  shows "getSessionKey P (at t (restart (snd (setSessionKey P k (Some m) (at t0 w))))) =
     (let w2 = at t (restart (snd (setSessionKey P k (Some m) (at t0 w))))
      in if expired P m t0 t then (SessionExpired, w2\<lparr>session := empty_session\<rparr>)
         else (SuccessKey k, w2\<lparr>sessionKey := Some k, sessionMode := m\<rparr>))"
  using assms
  by (simp add: getSessionKey_def restoreSession_def restart_def at_def setSessionKey_def
      or_default_Some Let_def)

lemma fixed_in_memory:
  assumes "k \<noteq> []"
  shows "getSessionKey P (at t (snd (setSessionKey P k (Some m) (at t0 w)))) =
         (SuccessKey k, at t (snd (setSessionKey P k (Some m) (at t0 w))))"
  using assms by (simp add: getSessionKey_def at_def setSessionKey_def Let_def)

lemma fixed_alarm:
  "alarm (snd (setSessionKey P k (Some (js ''default'')) (at t0 w))) = Some (t0 + 30 * 60000)"
  by (simp add: setSessionKey_def at_def or_default_Some mode_names Let_def)

lemma deliver_not_due:
  "alarm w = Some due \<Longrightarrow> t < due \<Longrightarrow> deliver_alarm P (at t w) = at t w"
  by (simp add: deliver_alarm_def at_def)

lemma deliver_none: "alarm w = None \<Longrightarrow> deliver_alarm P (at t w) = at t w"
  by (simp add: deliver_alarm_def at_def)

lemma deliver_due:
  "alarm w = Some due \<Longrightarrow> due \<le> t \<Longrightarrow> session_available P \<Longrightarrow>
   fst (getSessionKey P (deliver_alarm P (at t w))) = SessionExpired"
  by (simp add: deliver_alarm_def at_def onAlarm_def getSessionKey_def restoreSession_def
      empty_session_def)

lemma restart_alarm: "alarm (restart w) = alarm w"
  by (simp add: restart_def)

lemma key_nonempty: "js ''a2V5'' \<noteq> []"
  by (simp add: js_def)

lemma demo_session_available: "session_available demo_platform"
  by (simp add: demo_platform_def)

lemma forever_mode:
  "js ''forever'' \<noteq> []" "js ''forever'' \<noteq> js ''default''" "js ''forever'' \<noteq> js ''today''"
  by (simp_all add: js_def)

section \<open>The claims\<close>

subsection \<open>C1: decryption under another key\<close>

text \<open>
  Claim C1 says that decrypting with a key other than the encrypting one fails, for
  \<open>SecurityManager.encrypt\<close>/\<open>decrypt\<close> and for \<open>CryptoUtils.encryptPassword\<close>/
  \<open>decryptPassword\<close>. For the first pair the outcome is the one of AES-GCM itself
  (\<open>decrypt_wrong_key\<close>). For the second pair the key is a \<open>CryptoKey\<close> object that
  \<open>CryptoUtils.encrypt\<close> and \<open>decrypt\<close> pass to \<open>TextEncoder.encode\<close> as if it were a
  password, so every key becomes the string \<open>[object CryptoKey]\<close>: for all keys \<open>k1\<close> and
  \<open>k2\<close>, equal or not, \<open>decryptPassword(encryptPassword(s, k1), k2)\<close> succeeds and returns
  the plaintext.
\<close>

theorem decryptPassword_accepts_any_key:
  assumes "gcm_correct P" "length salt' = 16" "length iv = 12"
  shows "decryptPassword_encryptPassword P salt' iv s (KeyObject k1) (KeyObject k2) =
         Inr (TextDecoder_decode (TextEncoder_encode s))"
  using assms by (rule decryptPassword_encryptPassword_object)

theorem decryptPassword_accepts_any_key_witness:
  "gcm_correct demo_platform
   \<and> length [1, 2, 3, 4, 5, 6, 7, 8, 9, 10, 11, 12, 13, 14, 15, 16 :: byte] = 16
   \<and> length [21, 22, 23, 24, 25, 26, 27, 28, 29, 30, 31, 32 :: byte] = 12
   \<and> [1, 2, 3] \<noteq> [9, 9, 9 :: byte]
   \<and> decryptPassword_encryptPassword demo_platform
        [1, 2, 3, 4, 5, 6, 7, 8, 9, 10, 11, 12, 13, 14, 15, 16]
        [21, 22, 23, 24, 25, 26, 27, 28, 29, 30, 31, 32]
        (js ''hunter2'') (KeyObject [1, 2, 3]) (KeyObject [9, 9, 9]) = Inr (js ''hunter2'')"
proof -
  have l: "length [1, 2, 3, 4, 5, 6, 7, 8, 9, 10, 11, 12, 13, 14, 15, 16 :: byte] = 16"
    "length [21, 22, 23, 24, 25, 26, 27, 28, 29, 30, 31, 32 :: byte] = 12" by simp_all
  from decryptPassword_accepts_any_key [OF demo_gcm_correct l, of "js ''hunter2''" "[1, 2, 3]" "[9, 9, 9]"]
  show ?thesis using demo_gcm_correct text_roundtrip [OF hunter2_well_formed] by simp
qed

subsection \<open>C2: the iteration count used by verification\<close>

text \<open>
  Claim C2 says that \<open>verifyMasterPassword\<close> derives the candidate key with the iteration
  count stored in the configuration. The code derives it with the constant
  \<open>PBKDF2_ITERATIONS\<close> of the running instance and never reads the stored field
  (\<open>verify_ignores_iterations\<close>): a configuration written by an instance whose constant
  was 100000 carries \<open>iterations = 100000\<close>, and the correct passphrase is then rejected
  as wrong by the instance whose constant is 120000, while a configuration written with
  120000 verifies.
\<close>

theorem verify_uses_current_iterations:
  "fst (verifyMasterPassword new_SecurityManager demo_platform (js ''Abcd1234'') (js ''default'')
     (snd (initializeMasterPassword (new_SecurityManager\<lparr>PBKDF2_ITERATIONS := 100000\<rparr>)
        demo_platform (js ''Abcd1234'') empty_world)))
   = \<lparr>success = False, message = MsgWrongPassword, key = None\<rparr>
   \<and> map_option iterations (stored_config (local
        (snd (initializeMasterPassword (new_SecurityManager\<lparr>PBKDF2_ITERATIONS := 100000\<rparr>)
           demo_platform (js ''Abcd1234'') empty_world)))) = Some 100000
   \<and> success (fst (verifyMasterPassword new_SecurityManager demo_platform (js ''Abcd1234'')
        (js ''default'')
        (snd (initializeMasterPassword new_SecurityManager demo_platform (js ''Abcd1234'')
           empty_world))))"
proof -
  let ?old = "new_SecurityManager\<lparr>PBKDF2_ITERATIONS := 100000\<rparr>"
  let ?sb = "getRandomValues demo_platform (cursor empty_world) (SALT_LENGTH ?old)"
  let ?iv = "getRandomValues demo_platform (cursor empty_world + SALT_LENGTH ?old) 12"
  let ?k = "deriveKey ?old demo_platform (js ''Abcd1234'') ?sb"
  let ?ct = "aes_gcm_encrypt demo_platform ?k ?iv (TextEncoder_encode (VERIFICATION_TEXT ?old))"
  let ?w = "snd (initializeMasterPassword ?old demo_platform (js ''Abcd1234'') empty_world)"
  have cfg: "stored_config (local ?w) =
    Some \<lparr>version = js ''2.0'', salt = b64_groups (map unat ?sb), iterations = PBKDF2_ITERATIONS ?old,
          verificationData = b64_groups (map unat (?iv @ ?ct)), createdAt = now empty_world\<rparr>"
    by (simp add: initialize_success [OF valid_Abcd1234] Let_def setSessionKey_local del: map_append)
  have none: "aes_gcm_decrypt demo_platform
      (deriveKey new_SecurityManager demo_platform (js ''Abcd1234'') ?sb) ?iv ?ct = None"
    using demo_wrong_key [OF demo_derived_keys_differ] by (simp add: demo_platform_def)
  have rejected: "fst (verifyMasterPassword new_SecurityManager demo_platform (js ''Abcd1234'')
      (js ''default'') ?w) = \<lparr>success = False, message = MsgWrongPassword, key = None\<rparr>"
    using verify_stored [where sb = ?sb and iv = ?iv and ct = ?ct and this = new_SecurityManager
        and P = demo_platform and pw = "js ''Abcd1234''" and mode = "js ''default''", OF cfg] none
    by (simp add: length_getRandomValues)
  have stored: "map_option iterations (stored_config (local ?w)) = Some 100000"
    by (simp add: cfg)
  have current: "success (validatePasswordStrength new_SecurityManager (js ''Abcd1234''))"
    using valid_Abcd1234 [of 120000] by (simp add: new_SecurityManager_def)
  from rejected stored verify_after_initialize [OF demo_gcm_correct current marker_well_formed]
  show ?thesis by simp
qed

subsection \<open>C3: secrets that the legacy scheme cannot decrypt\<close>

text \<open>
  Claim C3, as amended. In a migration that runs to the end, for every stored secret
  whose legacy decryption fails, the account is named by \<open>console.warn\<close> and its
  stored string is taken as the plaintext: the value stored after the migration is
  \<open>encrypt\<close> of the original string under the new key with a fresh 12-byte nonce, and
  it differs from the value stored before.
\<close>

theorem migration_reencrypts_undecryptable:
  fixes P :: platform and this :: securityManager and w :: world and old new :: jsstr
  assumes "masterPassword (local w) = Some old" "old \<noteq> []"
    and "success (validatePasswordStrength this new)"
    and "accounts (local w) = Some accs" "i < length accs"
    and "password (accs ! i) = Some c" "c \<noteq> []" "window_cryptoUtils P"
    and "CryptoUtils_decrypt P c (KeyString old) = Inl e"
    and "gcm_tag_length P"
  shows "username (accs ! i) \<in> set (warnings (snd (migrateFromOldVersion this P old new w)))
     \<and> (\<exists>iv c'. length iv = 12
          \<and> encrypt P iv c (deriveKey this P new (getRandomValues P (cursor w) (SALT_LENGTH this)))
              = Inr c'
          \<and> stored_password (snd (migrateFromOldVersion this P old new w)) i = Some c'
          \<and> c' \<noteq> c)"
  using assms by (rule migrate_failed_item_differs)

theorem migration_reencrypts_undecryptable_witness:
  "masterPassword (local legacy_world) = Some (js ''OldPass1'') \<and> js ''OldPass1'' \<noteq> []
   \<and> success (validatePasswordStrength new_SecurityManager (js ''Abcd1234''))
   \<and> accounts (local legacy_world) = Some
          [\<lparr>account_id = js ''a1'', envId = js ''e1'', username = js ''alice'',
            password = Some legacy_secret\<rparr>,
           \<lparr>account_id = js ''a2'', envId = js ''e1'', username = js ''bob'',
            password = Some (js ''plain'')\<rparr>]
   \<and> js ''plain'' \<noteq> [] \<and> window_cryptoUtils demo_platform
   \<and> CryptoUtils_decrypt demo_platform (js ''plain'') (KeyString (js ''OldPass1'')) =
       Inl LegacyDecryptError
   \<and> gcm_tag_length demo_platform
   \<and> js ''bob'' \<in> set (warnings (snd (migrateFromOldVersion new_SecurityManager demo_platform
        (js ''OldPass1'') (js ''Abcd1234'') legacy_world)))
   \<and> (\<exists>iv c'. length iv = 12
        \<and> encrypt demo_platform iv (js ''plain'')
             (deriveKey new_SecurityManager demo_platform (js ''Abcd1234'')
                (getRandomValues demo_platform (cursor legacy_world)
                   (SALT_LENGTH new_SecurityManager))) = Inr c'
        \<and> stored_password (snd (migrateFromOldVersion new_SecurityManager demo_platform
             (js ''OldPass1'') (js ''Abcd1234'') legacy_world)) 1 = Some c'
        \<and> c' \<noteq> js ''plain'')"
proof -
  let ?accs = "[\<lparr>account_id = js ''a1'', envId = js ''e1'', username = js ''alice'',
            password = Some legacy_secret\<rparr>,
           \<lparr>account_id = js ''a2'', envId = js ''e1'', username = js ''bob'',
            password = Some (js ''plain'')\<rparr>]"
  have i: "1 < length ?accs" by simp
  have p: "password (?accs ! 1) = Some (js ''plain'')" by simp
  from migration_reencrypts_undecryptable [OF legacy_world_fields(1) OldPass1_nonempty valid_new
      legacy_world_fields(2) i p plain_nonempty demo_window_cryptoUtils plain_not_decryptable
      demo_gcm_tag_length]
  show ?thesis
    using legacy_world_fields(1,2) OldPass1_nonempty valid_new plain_nonempty
      demo_window_cryptoUtils plain_not_decryptable demo_gcm_tag_length
    by simp
qed

text \<open>The claim as written fails on the second account of the legacy installation: its
  stored password, which the legacy scheme cannot decrypt, is not carried through
  unchanged.\<close>

theorem migration_reencrypts_undecryptable_counterexample:
  "stored_password legacy_world 1 = Some (js ''plain'')
   \<and> CryptoUtils_decrypt demo_platform (js ''plain'') (KeyString (js ''OldPass1'')) =
       Inl LegacyDecryptError
   \<and> success (fst (migrateFromOldVersion new_SecurityManager demo_platform
        (js ''OldPass1'') (js ''Abcd1234'') legacy_world))
   \<and> stored_password (snd (migrateFromOldVersion new_SecurityManager demo_platform
        (js ''OldPass1'') (js ''Abcd1234'') legacy_world)) 1 \<noteq> Some (js ''plain'')"
proof -
  let ?accs = "[\<lparr>account_id = js ''a1'', envId = js ''e1'', username = js ''alice'',
            password = Some legacy_secret\<rparr>,
           \<lparr>account_id = js ''a2'', envId = js ''e1'', username = js ''bob'',
            password = Some (js ''plain'')\<rparr>]"
  have i: "1 < length ?accs" by simp
  have p: "password (?accs ! 1) = Some (js ''plain'')" by simp
  have before: "stored_password legacy_world 1 = Some (js ''plain'')"
    by (simp add: stored_password_def legacy_world_fields(2))
  from migrate_failed_item_differs [OF legacy_world_fields(1) OldPass1_nonempty valid_new
      legacy_world_fields(2) i p plain_nonempty demo_window_cryptoUtils plain_not_decryptable
      demo_gcm_tag_length]
  have after: "stored_password (snd (migrateFromOldVersion new_SecurityManager demo_platform
        (js ''OldPass1'') (js ''Abcd1234'') legacy_world)) 1 \<noteq> Some (js ''plain'')"
    by auto
  from before after plain_not_decryptable
    migrate_keeps_backup [OF legacy_world_fields(1) OldPass1_nonempty valid_new, of demo_platform]
  show ?thesis by simp
qed

subsection \<open>C4: the state after migration\<close>




subsection \<open>C5: the failures of verification\<close>

text \<open>
  Claim C5, as amended. For every stored configuration and every passphrase, a failed
  \<open>verifyMasterPassword\<close> leaves the state unchanged and reports the single
  wrong-password message whenever the stored salt decodes: a marker that is not base64, a
  failed authentication and a marker that decrypts to another text are not told apart.
  When the stored salt does not decode, the failure is the other message, the one of the
  outer \<open>catch\<close>, carrying the decoder's error.
\<close>

theorem verify_failure_message:
  assumes "stored_config (local w) = Some config"
    and "\<not> success (fst (verifyMasterPassword this P pw mode w))"
  shows "message (fst (verifyMasterPassword this P pw mode w)) =
           (case base64ToArrayBuffer (salt config) of
              Inl e \<Rightarrow> MsgVerifyFailed e
            | Inr sb \<Rightarrow> MsgWrongPassword)
         \<and> snd (verifyMasterPassword this P pw mode w) = w"
  using assms
  by (auto simp: verifyMasterPassword_def Let_def split: sum.splits if_splits)

theorem verify_failure_message_witness:
  "stored_config (local corrupt_marker_world) =
     Some \<lparr>version = js ''2.0'', salt = js ''AAAA'', iterations = 120000,
           verificationData = js ''!'', createdAt = 0\<rparr>
   \<and> \<not> success (fst (verifyMasterPassword new_SecurityManager demo_platform (js ''Abcd1234'')
          (js ''default'') corrupt_marker_world))
   \<and> message (fst (verifyMasterPassword new_SecurityManager demo_platform (js ''Abcd1234'')
          (js ''default'') corrupt_marker_world)) = MsgWrongPassword
   \<and> snd (verifyMasterPassword new_SecurityManager demo_platform (js ''Abcd1234'')
          (js ''default'') corrupt_marker_world) = corrupt_marker_world"
proof -
  have cfg: "stored_config (local corrupt_marker_world) =
     Some \<lparr>version = js ''2.0'', salt = js ''AAAA'', iterations = 120000,
           verificationData = js ''!'', createdAt = 0\<rparr>"
    by (simp add: corrupt_marker_world_def empty_world_def)
  have failed: "\<not> success (fst (verifyMasterPassword new_SecurityManager demo_platform
      (js ''Abcd1234'') (js ''default'') corrupt_marker_world))"
    by (simp add: verify_corrupt_marker)
  have decodes: "base64ToArrayBuffer (js ''AAAA'') = Inr [0, 0, 0]"
    by (simp add: base64ToArrayBuffer_def atob_def bindE_def ascii_whitespace_def b64_value_def
        strip_padding_def js_def)
  from verify_failure_message [OF cfg failed] cfg failed decodes
  show ?thesis by simp
qed

text \<open>The claim as written fails on a configuration whose salt is the string \<open>!\<close>: the
  failure is not the wrong-password message.\<close>

theorem verify_failure_message_counterexample:
  "fst (verifyMasterPassword new_SecurityManager demo_platform (js ''Abcd1234'') (js ''default'')
     corrupt_salt_world)
   = \<lparr>success = False, message = MsgVerifyFailed InvalidCharacterError, key = None\<rparr>"
  by (simp add: verifyMasterPassword_def corrupt_salt_world_def empty_world_def js_def atob_bang)

subsection \<open>C6: expiry of a session of mode \<open>Fixed\<close>\<close>

text \<open>
  Claim C6, as amended. After \<open>setSessionKey\<close> with a non-empty key and mode
  \<open>default\<close> at time \<open>t0\<close>, whether or not the service worker restarts afterwards:
  before 30 minutes have elapsed \<open>getSessionKey\<close> returns the key; once 30 minutes have
  elapsed and the browser has fired the alarm, it reports an expired session; and when
  the worker has restarted, the recomputation from the mirror alone reports an expired
  session at every instant strictly after the 30 minutes.
\<close>

theorem fixed_session_expiry:
  assumes "k \<noteq> []" "session_available P"
  shows "(t - t0 < SESSION_DURATION \<longrightarrow>
            fst (getSessionKey P (deliver_alarm P
              (at t (snd (setSessionKey P k (Some (mode_name Fixed)) (at t0 w)))))) = SuccessKey k
          \<and> fst (getSessionKey P (deliver_alarm P
              (at t (restart (snd (setSessionKey P k (Some (mode_name Fixed)) (at t0 w))))))) =
              SuccessKey k)
       \<and> (SESSION_DURATION \<le> t - t0 \<longrightarrow>
            fst (getSessionKey P (deliver_alarm P
              (at t (snd (setSessionKey P k (Some (mode_name Fixed)) (at t0 w)))))) = SessionExpired
          \<and> fst (getSessionKey P (deliver_alarm P
              (at t (restart (snd (setSessionKey P k (Some (mode_name Fixed)) (at t0 w))))))) =
              SessionExpired)
       \<and> (SESSION_DURATION < t - t0 \<longrightarrow>
            fst (getSessionKey P
              (at t (restart (snd (setSessionKey P k (Some (mode_name Fixed)) (at t0 w)))))) =
              SessionExpired)"
proof -
  let ?w1 = "snd (setSessionKey P k (Some (js ''default'')) (at t0 w))"
  have al: "alarm ?w1 = Some (t0 + 30 * 60000)" "alarm (restart ?w1) = Some (t0 + 30 * 60000)"
    by (simp_all add: fixed_alarm restart_alarm)
  have before: "fst (getSessionKey P (deliver_alarm P (at t ?w1))) = SuccessKey k
      \<and> fst (getSessionKey P (deliver_alarm P (at t (restart ?w1)))) = SuccessKey k"
    if "t - t0 < SESSION_DURATION"
  proof -
    from that have lt: "t < t0 + 30 * 60000" by (simp add: SESSION_DURATION_def)
    have "\<not> expired P (js ''default'') t0 t"
      using that by (simp add: expired_def SESSION_DURATION_def mode_names)
    then show ?thesis
      by (simp add: deliver_not_due [OF al(1) lt] deliver_not_due [OF al(2) lt]
          fixed_in_memory [OF assms(1)] restore_after_set [OF assms mode_names(1)] Let_def)
  qed
  have after: "fst (getSessionKey P (deliver_alarm P (at t ?w1))) = SessionExpired
      \<and> fst (getSessionKey P (deliver_alarm P (at t (restart ?w1)))) = SessionExpired"
    if "SESSION_DURATION \<le> t - t0"
  proof -
    from that have ge: "t0 + 30 * 60000 \<le> t" by (simp add: SESSION_DURATION_def)
    show ?thesis
      by (simp add: deliver_due [OF al(1) ge assms(2)] deliver_due [OF al(2) ge assms(2)])
  qed
  have recomputed: "fst (getSessionKey P (at t (restart ?w1))) = SessionExpired"
    if "SESSION_DURATION < t - t0"
  proof -
    have "expired P (js ''default'') t0 t"
      using that by (simp add: expired_def SESSION_DURATION_def)
    then show ?thesis
      by (simp add: restore_after_set [OF assms mode_names(1)] Let_def)
  qed
  from before after recomputed show ?thesis by simp
qed

theorem fixed_session_expiry_witness:
  "js ''a2V5'' \<noteq> [] \<and> session_available demo_platform
   \<and> fst (getSessionKey demo_platform (deliver_alarm demo_platform
        (at 1799999 (snd (setSessionKey demo_platform (js ''a2V5'') (Some (mode_name Fixed))
           (at 0 empty_world)))))) = SuccessKey (js ''a2V5'')
   \<and> fst (getSessionKey demo_platform (deliver_alarm demo_platform
        (at 1799999 (restart (snd (setSessionKey demo_platform (js ''a2V5'') (Some (mode_name Fixed))
           (at 0 empty_world))))))) = SuccessKey (js ''a2V5'')
   \<and> fst (getSessionKey demo_platform (deliver_alarm demo_platform
        (at 1800000 (snd (setSessionKey demo_platform (js ''a2V5'') (Some (mode_name Fixed))
           (at 0 empty_world)))))) = SessionExpired
   \<and> fst (getSessionKey demo_platform (deliver_alarm demo_platform
        (at 1800000 (restart (snd (setSessionKey demo_platform (js ''a2V5'') (Some (mode_name Fixed))
           (at 0 empty_world))))))) = SessionExpired
   \<and> fst (getSessionKey demo_platform
        (at 1800001 (restart (snd (setSessionKey demo_platform (js ''a2V5'') (Some (mode_name Fixed))
           (at 0 empty_world)))))) = SessionExpired"
  using fixed_session_expiry [OF key_nonempty demo_session_available, of 1799999 0 empty_world]
    fixed_session_expiry [OF key_nonempty demo_session_available, of 1800000 0 empty_world]
    fixed_session_expiry [OF key_nonempty demo_session_available, of 1800001 0 empty_world]
    key_nonempty demo_session_available
  by (simp add: SESSION_DURATION_def)

text \<open>The claim as written fails while the alarm has not fired: at exactly 30 minutes the
  recomputation from the mirror still returns the key (the test is \<open>now - createdAt >
  30 * 60 * 1000\<close>), and a worker that kept its memory returns the key at any time, here
  after 60 minutes.\<close>

theorem fixed_session_expiry_counterexample:
  "fst (getSessionKey demo_platform
     (at 1800000 (restart (snd (setSessionKey demo_platform (js ''a2V5'') (Some (mode_name Fixed))
        (at 0 empty_world)))))) = SuccessKey (js ''a2V5'')
   \<and> fst (getSessionKey demo_platform
     (at 3600000 (snd (setSessionKey demo_platform (js ''a2V5'') (Some (mode_name Fixed))
        (at 0 empty_world))))) = SuccessKey (js ''a2V5'')"
  by (simp add: restore_after_set [OF key_nonempty demo_session_available mode_names(1)]
      fixed_in_memory [OF key_nonempty] expired_def mode_names Let_def)

subsection \<open>C7: a session survives a restart of the service worker\<close>

text \<open>
  Claim C7, as amended. The rule of the specification is \<open>session_expired\<close>: elapsed
  time for \<open>Fixed\<close>, expired from the instant the duration has elapsed on, calendar day
  for \<open>EndOfDay\<close>, never for \<open>UntilBrowserClose\<close>. For every non-empty key and every
  mode, after \<open>setSessionKey\<close> at time \<open>t0\<close> and a restart that clears the worker's
  variables and keeps the mirror, \<open>getSessionKey\<close> at time \<open>t\<close> returns the key and
  restores it into memory if the session is not expired by that rule; if it is expired,
  \<open>getSessionKey\<close> empties the mirror and reports an expired session, except in mode
  \<open>Fixed\<close> at the very instant the duration has elapsed, where the comparison of line
  249 is strict and the key is still returned.
\<close>

theorem session_survives_restart:
  assumes "k \<noteq> []" "session_available P"
  shows "getSessionKey P (at t (restart (snd (setSessionKey P k (Some (mode_name m)) (at t0 w))))) =
     (let w2 = at t (restart (snd (setSessionKey P k (Some (mode_name m)) (at t0 w))))
      in if session_expired P m t0 t \<and> \<not> (m = Fixed \<and> t - t0 = SESSION_DURATION)
         then (SessionExpired, w2\<lparr>session := empty_session\<rparr>)
         else (SuccessKey k, w2\<lparr>sessionKey := Some k, sessionMode := mode_name m\<rparr>))"
  using restore_after_set [OF assms mode_name_nonempty] by (simp add: expired_mode_name)

theorem session_survives_restart_witness:
  "js ''a2V5'' \<noteq> [] \<and> session_available demo_platform
   \<and> fst (getSessionKey demo_platform
        (at 1000 (restart (snd (setSessionKey demo_platform (js ''a2V5'') (Some (mode_name Fixed))
           (at 0 empty_world)))))) = SuccessKey (js ''a2V5'')
   \<and> fst (getSessionKey demo_platform
        (at 1800001 (restart (snd (setSessionKey demo_platform (js ''a2V5'')
           (Some (mode_name Fixed)) (at 0 empty_world)))))) = SessionExpired
   \<and> session (snd (getSessionKey demo_platform
        (at 1800001 (restart (snd (setSessionKey demo_platform (js ''a2V5'')
           (Some (mode_name Fixed)) (at 0 empty_world))))))) = empty_session
   \<and> fst (getSessionKey demo_platform
        (at 1000 (restart (snd (setSessionKey demo_platform (js ''a2V5'') (Some (mode_name EndOfDay))
           (at 0 empty_world)))))) = SuccessKey (js ''a2V5'')
   \<and> fst (getSessionKey demo_platform
        (at 86400000 (restart (snd (setSessionKey demo_platform (js ''a2V5'')
           (Some (mode_name EndOfDay)) (at 0 empty_world)))))) = SessionExpired
   \<and> session (snd (getSessionKey demo_platform
        (at 86400000 (restart (snd (setSessionKey demo_platform (js ''a2V5'')
           (Some (mode_name EndOfDay)) (at 0 empty_world))))))) = empty_session
   \<and> fst (getSessionKey demo_platform
        (at 86400000 (restart (snd (setSessionKey demo_platform (js ''a2V5'')
           (Some (mode_name UntilBrowserClose)) (at 0 empty_world)))))) = SuccessKey (js ''a2V5'')"
  using session_survives_restart [OF key_nonempty demo_session_available, of 1000 Fixed 0 empty_world]
    session_survives_restart [OF key_nonempty demo_session_available, of 1800001 Fixed 0 empty_world]
    session_survives_restart [OF key_nonempty demo_session_available, of 1000 EndOfDay 0 empty_world]
    session_survives_restart [OF key_nonempty demo_session_available, of 86400000 EndOfDay 0 empty_world]
    session_survives_restart [OF key_nonempty demo_session_available, of 86400000 UntilBrowserClose 0 empty_world]
    key_nonempty demo_session_available
  by (simp add: demo_platform_def Let_def SESSION_DURATION_def)

text \<open>The claim as written fails in two places. In mode \<open>Fixed\<close>, at the instant the
  30 minutes have elapsed, the session is expired by the rule and the restored worker still
  returns the key. With the empty string as the key the session is not expired and the
  restored worker reports an expired session, because the guard of line 242 reads the
  empty string as a missing key.\<close>

theorem session_survives_restart_counterexample:
  "session_expired demo_platform Fixed 0 1800000
   \<and> fst (getSessionKey demo_platform
        (at 1800000 (restart (snd (setSessionKey demo_platform (js ''a2V5'')
           (Some (mode_name Fixed)) (at 0 empty_world)))))) = SuccessKey (js ''a2V5'')
   \<and> \<not> session_expired demo_platform UntilBrowserClose 0 1000
   \<and> fst (getSessionKey demo_platform
        (at 1000 (restart (snd (setSessionKey demo_platform [] (Some (mode_name UntilBrowserClose))
           (at 0 empty_world)))))) = SessionExpired"
proof -
  have "\<not> expired demo_platform (mode_name Fixed) 0 1800000"
    by (simp add: expired_def mode_names)
  then have "fst (getSessionKey demo_platform
        (at 1800000 (restart (snd (setSessionKey demo_platform (js ''a2V5'')
           (Some (mode_name Fixed)) (at 0 empty_world)))))) = SuccessKey (js ''a2V5'')"
    using restore_after_set [OF key_nonempty demo_session_available mode_name_nonempty,
        of 1800000 Fixed 0 empty_world]
    by (simp add: Let_def)
  moreover have "fst (getSessionKey demo_platform
        (at 1000 (restart (snd (setSessionKey demo_platform [] (Some (mode_name UntilBrowserClose))
           (at 0 empty_world)))))) = SessionExpired"
    by (simp add: getSessionKey_def restoreSession_def restart_def at_def setSessionKey_def
        Let_def demo_session_available)
  ultimately show ?thesis by (simp add: SESSION_DURATION_def)
qed

subsection \<open>C8: the round trip of the codec\<close>

text \<open>
  Claim C8, as amended. For every key \<open>k\<close>, every 12-byte nonce and every plaintext \<open>s\<close>
  that has no unpaired surrogate and does not begin with \<open>U+FEFF\<close>,
  \<open>decrypt(encrypt(s, k), k)\<close> returns exactly \<open>s\<close>, AES-GCM decryption inverting
  encryption.
\<close>

theorem decrypt_encrypt_roundtrip:
  assumes "gcm_correct P" "length iv = 12" "well_formed s" "s = [] \<or> hd s \<noteq> 0xFEFF"
  shows "decrypt_encrypt P iv s k k = Inr s"
  using assms by (simp add: decrypt_encrypt_same_key text_roundtrip)

theorem decrypt_encrypt_roundtrip_witness:
  "gcm_correct demo_platform
   \<and> length [1, 6, 11, 16, 21, 26, 31, 36, 41, 46, 51, 56 :: byte] = 12
   \<and> well_formed (js ''hunter2'')
   \<and> (js ''hunter2'' = [] \<or> hd (js ''hunter2'') \<noteq> 0xFEFF)
   \<and> decrypt_encrypt demo_platform [1, 6, 11, 16, 21, 26, 31, 36, 41, 46, 51, 56]
        (js ''hunter2'') [1, 2, 3] [1, 2, 3] = Inr (js ''hunter2'')"
proof -
  have l: "length [1, 6, 11, 16, 21, 26, 31, 36, 41, 46, 51, 56 :: byte] = 12" by simp
  from decrypt_encrypt_roundtrip [OF demo_gcm_correct l hunter2_well_formed, of "[1, 2, 3]"]
  show ?thesis using demo_gcm_correct hunter2_well_formed by simp
qed

text \<open>The claim as written fails on a plaintext with an unpaired surrogate, which comes
  back as \<open>U+FFFD\<close>, and on a plaintext that begins with \<open>U+FEFF\<close>, which comes back
  without it.\<close>

theorem decrypt_encrypt_roundtrip_counterexample:
  "decrypt_encrypt demo_platform [1, 6, 11, 16, 21, 26, 31, 36, 41, 46, 51, 56]
     [0xD800, 0x61] [1, 2, 3] [1, 2, 3] = Inr [0xFFFD, 0x61]
   \<and> decrypt_encrypt demo_platform [1, 6, 11, 16, 21, 26, 31, 36, 41, 46, 51, 56]
     [0xFEFF, 0x61] [1, 2, 3] [1, 2, 3] = Inr [0x61]"
  by (simp add: decrypt_encrypt_same_key [OF demo_gcm_correct] decode_encode strip_bom_def
      utf16_units_def lone_unit_def high_surrogate_def low_surrogate_def)

subsection \<open>C9: the ciphertext classifier\<close>

text \<open>
  Claim C9. \<open>isBase64\<close> is true of every string that \<open>encrypt\<close> produces, for every
  plaintext, key and 12-byte nonce, AES-GCM appending its 16-byte tag; and it is true
  only of a string that matches the base64 pattern, has a length that is a multiple of 4,
  is accepted by \<open>atob\<close> and decodes to at least 28 bytes, so it is false of every other
  string.
\<close>

theorem isBase64_classifier:
  assumes "gcm_tag_length P" "length iv = 12"
  shows "(\<exists>c. encrypt P iv s k = Inr c \<and> isBase64 c)
     \<and> (isBase64 str \<longrightarrow>
          base64Regex str \<and> length str mod 4 = 0
          \<and> (\<exists>decoded. atob str = Inr decoded \<and> 28 \<le> length decoded))"
proof -
  obtain c where c: "encrypt P iv s k = Inr c" by (simp add: encrypt_eq)
  with isBase64_encrypt [OF assms c] have "\<exists>c. encrypt P iv s k = Inr c \<and> isBase64 c" by blast
  moreover have "isBase64 str \<longrightarrow>
          base64Regex str \<and> length str mod 4 = 0
          \<and> (\<exists>decoded. atob str = Inr decoded \<and> 28 \<le> length decoded)"
    by (auto simp: isBase64_def split: if_splits sum.splits)
  ultimately show ?thesis by blast
qed

theorem isBase64_classifier_witness:
  "gcm_tag_length demo_platform
   \<and> length [1, 6, 11, 16, 21, 26, 31, 36, 41, 46, 51, 56 :: byte] = 12
   \<and> (\<exists>c. encrypt demo_platform [1, 6, 11, 16, 21, 26, 31, 36, 41, 46, 51, 56]
            (js ''hunter2'') [1, 2, 3] = Inr c \<and> isBase64 c)
   \<and> isBase64 (js ''QUJDREVGR0hJSktMTU5PUFFSU1RVVldYWVphYmM='')
   \<and> base64Regex (js ''QUJDREVGR0hJSktMTU5PUFFSU1RVVldYWVphYmM='')
   \<and> length (js ''QUJDREVGR0hJSktMTU5PUFFSU1RVVldYWVphYmM='') mod 4 = 0
   \<and> (\<exists>decoded. atob (js ''QUJDREVGR0hJSktMTU5PUFFSU1RVVldYWVphYmM='') = Inr decoded
         \<and> 28 \<le> length decoded)"
proof -
  have l: "length [1, 6, 11, 16, 21, 26, 31, 36, 41, 46, 51, 56 :: byte] = 12" by simp
  from isBase64_classifier [OF demo_gcm_tag_length l, of "js ''hunter2''" "[1, 2, 3]"
      "js ''QUJDREVGR0hJSktMTU5PUFFSU1RVVldYWVphYmM=''"] isBase64_example demo_gcm_tag_length l
  show ?thesis by blast
qed

subsection \<open>C10: mode strings that are not recognised\<close>

text \<open>
  Claim C10, as amended. \<open>setSessionKey\<close> with a non-empty key and any non-empty mode
  string other than \<open>default\<close> and \<open>today\<close> succeeds, stores the key and that mode as
  given, in memory and in the mirror, schedules no alarm, and the session is never expired
  by time, before or after a restart: the resulting state is the one of mode \<open>browser\<close>
  but for the stored mode string.
\<close>

theorem unrecognised_mode_never_expires:
  assumes "m \<noteq> []" "m \<noteq> js ''default''" "m \<noteq> js ''today''" "k \<noteq> []" "session_available P"
  shows "fst (setSessionKey P k (Some m) (at t0 w)) = Success
     \<and> sessionKey (snd (setSessionKey P k (Some m) (at t0 w))) = Some k
     \<and> sessionMode (snd (setSessionKey P k (Some m) (at t0 w))) = m
     \<and> alarm (snd (setSessionKey P k (Some m) (at t0 w))) = None
     \<and> session (snd (setSessionKey P k (Some m) (at t0 w))) =
         \<lparr>stored_sessionKey = Some k, stored_sessionMode = Some m, sessionCreatedAt = Some t0\<rparr>
     \<and> fst (getSessionKey P (deliver_alarm P (at t (snd (setSessionKey P k (Some m) (at t0 w))))))
         = SuccessKey k
     \<and> fst (getSessionKey P (deliver_alarm P
          (at t (restart (snd (setSessionKey P k (Some m) (at t0 w))))))) = SuccessKey k
     \<and> snd (setSessionKey P k (Some m) (at t0 w)) =
         (snd (setSessionKey P k (Some (mode_name UntilBrowserClose)) (at t0 w)))
           \<lparr>sessionMode := m,
            session := \<lparr>stored_sessionKey = Some k, stored_sessionMode = Some m,
                        sessionCreatedAt = Some t0\<rparr>\<rparr>"
proof -
  let ?w1 = "snd (setSessionKey P k (Some m) (at t0 w))"
  have al: "alarm ?w1 = None" "alarm (restart ?w1) = None"
    using assms by (simp_all add: setSessionKey_def at_def or_default_Some restart_def Let_def)
  have "\<not> expired P m t0 t" using assms(2,3) by (simp add: expired_def)
  then have "fst (getSessionKey P (deliver_alarm P (at t ?w1))) = SuccessKey k"
    "fst (getSessionKey P (deliver_alarm P (at t (restart ?w1)))) = SuccessKey k"
    by (simp_all add: deliver_none [OF al(1)] deliver_none [OF al(2)]
        fixed_in_memory [OF assms(4)] restore_after_set [OF assms(4,5,1)] Let_def)
  moreover have "fst (setSessionKey P k (Some m) (at t0 w)) = Success
     \<and> sessionKey ?w1 = Some k \<and> sessionMode ?w1 = m \<and> alarm ?w1 = None
     \<and> session ?w1 =
         \<lparr>stored_sessionKey = Some k, stored_sessionMode = Some m, sessionCreatedAt = Some t0\<rparr>
     \<and> ?w1 = (snd (setSessionKey P k (Some (mode_name UntilBrowserClose)) (at t0 w)))
           \<lparr>sessionMode := m,
            session := \<lparr>stored_sessionKey = Some k, stored_sessionMode = Some m,
                        sessionCreatedAt = Some t0\<rparr>\<rparr>"
    using assms by (simp add: setSessionKey_def at_def or_default_Some mode_names Let_def)
  ultimately show ?thesis by (elim conjE) (intro conjI, assumption+)
qed

theorem unrecognised_mode_never_expires_witness:
  "js ''forever'' \<noteq> [] \<and> js ''forever'' \<noteq> js ''default'' \<and> js ''forever'' \<noteq> js ''today''
   \<and> js ''a2V5'' \<noteq> [] \<and> session_available demo_platform
   \<and> alarm (snd (setSessionKey demo_platform (js ''a2V5'') (Some (js ''forever''))
        (at 0 empty_world))) = None
   \<and> sessionMode (snd (setSessionKey demo_platform (js ''a2V5'') (Some (js ''forever''))
        (at 0 empty_world))) = js ''forever''
   \<and> fst (getSessionKey demo_platform (deliver_alarm demo_platform
        (at 999999999999 (restart (snd (setSessionKey demo_platform (js ''a2V5'')
           (Some (js ''forever'')) (at 0 empty_world))))))) = SuccessKey (js ''a2V5'')"
  using unrecognised_mode_never_expires [OF forever_mode key_nonempty demo_session_available,
      of 0 empty_world 999999999999]
    forever_mode key_nonempty demo_session_available
  by (elim conjE) (intro conjI, assumption+)

text \<open>The claim as written fails on the empty mode string, which
  \<open>request.mode || 'default'\<close> turns into \<open>default\<close>: the alarm is scheduled and the
  session expires after 30 minutes.\<close>

theorem unrecognised_mode_never_expires_counterexample:
  "fst (setSessionKey demo_platform (js ''a2V5'') (Some []) (at 0 empty_world)) = Success
   \<and> sessionMode (snd (setSessionKey demo_platform (js ''a2V5'') (Some []) (at 0 empty_world)))
       = js ''default''
   \<and> alarm (snd (setSessionKey demo_platform (js ''a2V5'') (Some []) (at 0 empty_world)))
       = Some 1800000
   \<and> fst (getSessionKey demo_platform
        (at 1800001 (restart (snd (setSessionKey demo_platform (js ''a2V5'') (Some [])
           (at 0 empty_world)))))) = SessionExpired"
  by (simp add: setSessionKey_def at_def or_default_def restart_def getSessionKey_def
      restoreSession_def expired_def demo_platform_def empty_world_def empty_session_def
      key_nonempty Let_def)

end
